theory Spec2Isabelle
  imports Main
begin

section \<open>Board codec (types/game.ts, store/game.ts)\<close>

text \<open>
  The enum \<open>Piece\<close> of the client. A JavaScript array cell is modelled by a \<open>slot\<close>:
  a stored piece, a stored \<open>undefined\<close>, or a hole left behind when an assignment
  beyond the end of the array extended it. Reading a hole or \<open>undefined\<close> gives
  \<open>None\<close> (JavaScript \<open>undefined\<close>). Indexing \<open>undefined\<close> raises \<open>TypeError\<close>.
  Strings are lists of 8-bit characters; the wire alphabet is ASCII, where this agrees
  with the code points that \<open>for (const char of row)\<close> iterates.
\<close>

datatype Piece = Empty | Red | Black | RedKing | BlackKing

datatype slot = Hole | Undefined | Val Piece

datatype error = TypeError

type_synonym jsrow = "slot list"
type_synonym jsboard = "jsrow list"

text \<open>\<open>boardState.split("/")\<close>: the empty string splits into one empty row.\<close>

fun split_slash :: "string \<Rightarrow> string list" where
  "split_slash [] = [[]]"
| "split_slash (c # cs) =
     (if c = CHR ''/'' then [] # split_slash cs
      else (case split_slash cs of
              [] \<Rightarrow> [[c]]
            | r # rs \<Rightarrow> (c # r) # rs))"

text \<open>The \<open>switch\<close> of \<open>parseBoardState\<close>: every other character is an empty square.\<close>

definition pieceOfChar :: "char \<Rightarrow> Piece" where
  "pieceOfChar ch =
     (if ch = CHR ''r'' then Red
      else if ch = CHR ''b'' then Black
      else if ch = CHR ''R'' then RedKing
      else if ch = CHR ''B'' then BlackKing
      else Empty)"

definition parseBoardState :: "string \<Rightarrow> jsboard" where
  "parseBoardState boardState = map (map (\<lambda>ch. Val (pieceOfChar ch))) (split_slash boardState)"

text \<open>The \<open>switch\<close> of \<open>boardToString\<close>: the default branch writes a dot.\<close>

definition charOfPiece :: "Piece option \<Rightarrow> char" where
  "charOfPiece piece =
     (if piece = Some Red then CHR ''r''
      else if piece = Some Black then CHR ''b''
      else if piece = Some RedKing then CHR ''R''
      else if piece = Some BlackKing then CHR ''B''
      else CHR ''.'')"

text \<open>
  \<open>row.map(f).join('')\<close>: \<open>map\<close> does not call \<open>f\<close> on a hole and leaves the hole
  in place, and \<open>join\<close> writes a hole as the empty string.
\<close>

fun slotString :: "slot \<Rightarrow> string" where
  "slotString Hole = []"
| "slotString Undefined = [charOfPiece None]"
| "slotString (Val p) = [charOfPiece (Some p)]"

fun join_slash :: "string list \<Rightarrow> string" where
  "join_slash [] = []"
| "join_slash [r] = r"
| "join_slash (r # rs) = r @ CHR ''/'' # join_slash rs"

definition boardToString :: "jsboard \<Rightarrow> string" where
  "boardToString board = join_slash (map (\<lambda>row. concat (map slotString row)) board)"

text \<open>Reading \<open>row[c]\<close> and \<open>board[r][c]\<close>.\<close>

fun slot_read :: "slot \<Rightarrow> Piece option" where
  "slot_read Hole = None"
| "slot_read Undefined = None"
| "slot_read (Val p) = Some p"

definition row_get :: "jsrow \<Rightarrow> int \<Rightarrow> Piece option" where
  "row_get row c = (if 0 \<le> c \<and> c < int (length row) then slot_read (row ! nat c) else None)"

definition at :: "jsboard \<Rightarrow> int \<Rightarrow> int \<Rightarrow> error + Piece option" where
  "at board r c =
     (if 0 \<le> r \<and> r < int (length board) then Inr (row_get (board ! nat r) c)
      else Inl TypeError)"

definition getPiece :: "string \<Rightarrow> int \<Rightarrow> int \<Rightarrow> error + Piece option" where
  "getPiece boardState row col =
     (let board = parseBoardState boardState in
      if row \<ge> 0 \<and> row < 8 \<and> col \<ge> 0 \<and> col < 8 then at board row col
      else Inr (Some Empty))"

text \<open>
  The wire alphabet as the specification gives it (blank = empty), and the characters
  that \<open>boardToString\<close> writes.
\<close>

definition specAlphabet :: "char set" where
  "specAlphabet = {CHR '' '', CHR ''r'', CHR ''b'', CHR ''R'', CHR ''B''}"

definition dotAlphabet :: "char set" where
  "dotAlphabet = {CHR ''.'', CHR ''r'', CHR ''b'', CHR ''R'', CHR ''B''}"

section \<open>Game store: optimistic move and rollback (store/game.ts)\<close>

datatype Turn = TurnRed | TurnBlack

datatype GameStatus = Pending | Active | Finished

record Clock =
  initialTimeMs :: int
  incrementMs :: int
  redTimeMs :: int
  blackTimeMs :: int
  lastMoveAt :: int

text \<open>
  \<open>CheckersGame\<close>, with the fields the store reads (\<open>gameId\<close> is its \<open>id\<close>); \<open>hasMoves\<close> tells whether the
  snapshot carries the \<open>moves\<close> array (the list queries do not fetch it).
\<close>

record CheckersGame =
  gameId :: string
  redPlayer :: "string option"
  blackPlayer :: "string option"
  boardState :: string
  currentTurn :: Turn
  moveCount :: int
  status :: GameStatus
  hasMoves :: bool
  clock :: "Clock option"

record MoveInfo =
  fromRow :: int
  fromCol :: int
  toRow :: int
  toCol :: int

record PreviousState =
  prev_games :: "CheckersGame list"
  prev_selectedGame :: "CheckersGame option"

record GameStore =
  games :: "CheckersGame list"
  selectedGame :: "CheckersGame option"
  selectedGameId :: "string option"
  isLoading :: bool
  isMoving :: bool
  error :: "string option"
  previousState :: "PreviousState option"

text \<open>
  The assignment \<open>row[c] = v\<close>. An index inside the row replaces the cell; an index
  at or beyond the end extends the array, leaving holes; a negative index (or one above
  the largest array index \<open>2^32 - 2\<close>) only adds a property that neither \<open>map\<close> nor
  \<open>join\<close> visits, and that \<open>localMakeMove\<close> never reads back.
\<close>

definition slot_of :: "Piece option \<Rightarrow> slot" where
  "slot_of v = (case v of None \<Rightarrow> Undefined | Some p \<Rightarrow> Val p)"

definition row_set :: "jsrow \<Rightarrow> int \<Rightarrow> Piece option \<Rightarrow> jsrow" where
  "row_set row c v =
     (if c < 0 \<or> 4294967294 < c then row
      else if c < int (length row) then row[nat c := slot_of v]
      else row @ replicate (nat c - length row) Hole @ [slot_of v])"

text \<open>The assignment \<open>board[r][c] = v\<close>: \<open>board[r]\<close> must be a row.\<close>

definition board_set :: "jsboard \<Rightarrow> int \<Rightarrow> int \<Rightarrow> Piece option \<Rightarrow> error + jsboard" where
  "board_set board r c v =
     (if 0 \<le> r \<and> r < int (length board)
      then Inr (board[nat r := row_set (board ! nat r) c v])
      else Inl TypeError)"

text \<open>The promotion test of \<open>localMakeMove\<close>.\<close>

definition newPiece :: "Piece option \<Rightarrow> int \<Rightarrow> Piece option" where
  "newPiece piece toRow' =
     (if piece = Some Red \<and> toRow' = 7 then Some RedKing
      else if piece = Some Black \<and> toRow' = 0 then Some BlackKing
      else piece)"

text \<open>
  The board transform of \<open>localMakeMove\<close>: from \<open>parseBoardState\<close> to
  \<open>boardToString\<close>. \<open>Math.floor((a + b) / 2)\<close> on integers is \<open>(a + b) div 2\<close>.
\<close>

definition newBoardState :: "string \<Rightarrow> MoveInfo \<Rightarrow> error + string" where
  "newBoardState bs from =
     (let board = parseBoardState bs in
      case at board (fromRow from) (fromCol from) of
        Inl e \<Rightarrow> Inl e
      | Inr piece \<Rightarrow>
         (case board_set board (fromRow from) (fromCol from) (Some Empty) of
            Inl e \<Rightarrow> Inl e
          | Inr board1 \<Rightarrow>
             (let rowDiff = \<bar>toRow from - fromRow from\<bar>;
                  captured =
                    (if rowDiff = 2
                     then board_set board1 ((fromRow from + toRow from) div 2)
                            ((fromCol from + toCol from) div 2) (Some Empty)
                     else Inr board1)
              in case captured of
                   Inl e \<Rightarrow> Inl e
                 | Inr board2 \<Rightarrow>
                    (case board_set board2 (toRow from) (toCol from)
                            (newPiece piece (toRow from)) of
                       Inl e \<Rightarrow> Inl e
                     | Inr board3 \<Rightarrow> Inr (boardToString board3)))))"

text \<open>
  \<open>localMakeMove\<close> returns the store it leaves behind and the exception, if one was
  raised: the snapshot for rollback is stored before the board is touched.
\<close>

definition localMakeMove :: "MoveInfo \<Rightarrow> GameStore \<Rightarrow> error option \<times> GameStore" where
  "localMakeMove from s =
     (case selectedGame s of
        None \<Rightarrow> (None, s)
      | Some g \<Rightarrow>
         (let s1 = s\<lparr>previousState :=
                       Some \<lparr>prev_games = games s, prev_selectedGame = Some g\<rparr>\<rparr>
          in case newBoardState (boardState g) from of
               Inl e \<Rightarrow> (Some e, s1)
             | Inr nbs \<Rightarrow>
                (let newTurn = (if currentTurn g = TurnRed then TurnBlack else TurnRed);
                     updatedGame = g\<lparr>boardState := nbs, currentTurn := newTurn,
                                     moveCount := moveCount g + 1\<rparr>
                 in (None,
                     s1\<lparr>selectedGame := Some updatedGame,
                        games := map (\<lambda>x. if gameId x = gameId g then updatedGame else x)
                                   (games s)\<rparr>))))"

definition rollbackMove :: "GameStore \<Rightarrow> GameStore" where
  "rollbackMove s =
     (case previousState s of
        None \<Rightarrow> s
      | Some p \<Rightarrow> s\<lparr>games := prev_games p, selectedGame := prev_selectedGame p,
                     previousState := None\<rparr>)"

text \<open>An 8 by 8 board, and the squares on it.\<close>

definition is8x8 :: "jsboard \<Rightarrow> bool" where
  "is8x8 board \<longleftrightarrow> length board = 8 \<and> (\<forall>row \<in> set board. length row = 8)"

definition onBoard :: "int \<Rightarrow> int \<Rightarrow> bool" where
  "onBoard r c \<longleftrightarrow> 0 \<le> r \<and> r < 8 \<and> 0 \<le> c \<and> c < 8"

definition isKing :: "Piece option \<Rightarrow> bool" where
  "isKing piece \<longleftrightarrow> piece = Some RedKing \<or> piece = Some BlackKing"

definition startBoard :: string where
  "startBoard = ''.r.r.r.r/r.r.r.r./.r.r.r.r/......../......../b.b.b.b./.b.b.b.b/b.b.b.b.''"

section \<open>Move-legality engine (CheckersBoard component)\<close>

datatype PlayerColor = PlayerRed | PlayerBlack | Spectator

definition isRed :: "Piece option \<Rightarrow> bool" where
  "isRed piece \<longleftrightarrow> piece = Some Red \<or> piece = Some RedKing"

text \<open>The direction table shared by the three scans of the component.\<close>

definition directions :: "Piece option \<Rightarrow> (int \<times> int) list" where
  "directions piece =
     (if isKing piece then [(-1, -1), (-1, 1), (1, -1), (1, 1)]
      else if isRed piece then [(1, -1), (1, 1)]
      else [(-1, -1), (-1, 1)])"

definition isEnemy :: "bool \<Rightarrow> Piece option \<Rightarrow> bool" where
  "isEnemy isPieceRed midPiece =
     (if isPieceRed then midPiece = Some Black \<or> midPiece = Some BlackKing
      else midPiece = Some Red \<or> midPiece = Some RedKing)"

text \<open>The loop over \<open>dirs\<close> in \<open>hasAnyCaptureAvailable\<close>; \<open>return true\<close> leaves all loops.\<close>

fun hasCapture_dirs :: "jsboard \<Rightarrow> bool \<Rightarrow> int \<Rightarrow> int \<Rightarrow> (int \<times> int) list \<Rightarrow> error + bool" where
  "hasCapture_dirs board isPieceRed row col [] = Inr False"
| "hasCapture_dirs board isPieceRed row col ((dr, dc) # ds) =
     (let jumpRow = row + 2 * dr; jumpCol = col + 2 * dc;
          midRow = row + dr; midCol = col + dc
      in if jumpRow \<ge> 0 \<and> jumpRow < 8 \<and> jumpCol \<ge> 0 \<and> jumpCol < 8 then
           (case at board jumpRow jumpCol of
              Inl e \<Rightarrow> Inl e
            | Inr landing \<Rightarrow>
               if landing = Some Empty then
                 (case at board midRow midCol of
                    Inl e \<Rightarrow> Inl e
                  | Inr midPiece \<Rightarrow>
                     if isEnemy isPieceRed midPiece then Inr True
                     else hasCapture_dirs board isPieceRed row col ds)
               else hasCapture_dirs board isPieceRed row col ds)
         else hasCapture_dirs board isPieceRed row col ds)"

fun hasCapture_cols :: "jsboard \<Rightarrow> bool \<Rightarrow> int \<Rightarrow> int list \<Rightarrow> error + bool" where
  "hasCapture_cols board isPlayerRed row [] = Inr False"
| "hasCapture_cols board isPlayerRed row (col # cols) =
     (case at board row col of
        Inl e \<Rightarrow> Inl e
      | Inr piece \<Rightarrow>
         if piece = Some Empty then hasCapture_cols board isPlayerRed row cols
         else
           (let isPieceRed = isRed piece in
            if isPlayerRed \<noteq> isPieceRed then hasCapture_cols board isPlayerRed row cols
            else
              (case hasCapture_dirs board isPieceRed row col (directions piece) of
                 Inl e \<Rightarrow> Inl e
               | Inr found \<Rightarrow>
                  if found then Inr True
                  else hasCapture_cols board isPlayerRed row cols)))"

fun hasCapture_rows :: "jsboard \<Rightarrow> bool \<Rightarrow> int list \<Rightarrow> error + bool" where
  "hasCapture_rows board isPlayerRed [] = Inr False"
| "hasCapture_rows board isPlayerRed (row # rows) =
     (case hasCapture_cols board isPlayerRed row [0..7] of
        Inl e \<Rightarrow> Inl e
      | Inr found \<Rightarrow>
         if found then Inr True else hasCapture_rows board isPlayerRed rows)"

definition hasAnyCaptureAvailable :: "jsboard \<Rightarrow> PlayerColor \<Rightarrow> error + bool" where
  "hasAnyCaptureAvailable board playerColor =
     (let isPlayerRed = (playerColor = PlayerRed) in hasCapture_rows board isPlayerRed [0..7])"

text \<open>
  The loop over \<open>directions\<close> in \<open>calculateValidMoves\<close>, carrying \<open>simpleMoves\<close> and
  \<open>captureMoves\<close>; \<open>&&\<close> reads the board only after the bounds test.
\<close>

fun validMoves_loop ::
  "jsboard \<Rightarrow> bool \<Rightarrow> int \<Rightarrow> int \<Rightarrow> (int \<times> int) list \<Rightarrow>
   (int \<times> int) list \<Rightarrow> (int \<times> int) list \<Rightarrow> error + ((int \<times> int) list \<times> (int \<times> int) list)" where
  "validMoves_loop board isRed' row col [] simpleMoves captureMoves =
     Inr (simpleMoves, captureMoves)"
| "validMoves_loop board isRed' row col ((dr, dc) # ds) simpleMoves captureMoves =
     (let newRow = row + dr; newCol = col + dc;
          simple =
            (if newRow \<ge> 0 \<and> newRow < 8 \<and> newCol \<ge> 0 \<and> newCol < 8 then
               (case at board newRow newCol of
                  Inl e \<Rightarrow> Inl e
                | Inr target \<Rightarrow>
                   Inr (if target = Some Empty then simpleMoves @ [(newRow, newCol)]
                        else simpleMoves))
             else Inr simpleMoves)
      in case simple of
           Inl e \<Rightarrow> Inl e
         | Inr simpleMoves' \<Rightarrow>
            (let jumpRow = row + 2 * dr; jumpCol = col + 2 * dc;
                 midRow = row + dr; midCol = col + dc;
                 capture =
                   (if jumpRow \<ge> 0 \<and> jumpRow < 8 \<and> jumpCol \<ge> 0 \<and> jumpCol < 8 then
                      (case at board jumpRow jumpCol of
                         Inl e \<Rightarrow> Inl e
                       | Inr landing \<Rightarrow>
                          if landing = Some Empty then
                            (case at board midRow midCol of
                               Inl e \<Rightarrow> Inl e
                             | Inr midPiece \<Rightarrow>
                                Inr (if isEnemy isRed' midPiece
                                     then captureMoves @ [(jumpRow, jumpCol)]
                                     else captureMoves))
                          else Inr captureMoves)
                    else Inr captureMoves)
             in case capture of
                  Inl e \<Rightarrow> Inl e
                | Inr captureMoves' \<Rightarrow>
                   validMoves_loop board isRed' row col ds simpleMoves' captureMoves'))"

definition calculateValidMoves ::
  "jsboard \<Rightarrow> PlayerColor \<Rightarrow> int \<Rightarrow> int \<Rightarrow> Piece option \<Rightarrow> error + (int \<times> int) list" where
  "calculateValidMoves board playerColor row col piece =
     (case validMoves_loop board (isRed piece) row col (directions piece) [] [] of
        Inl e \<Rightarrow> Inl e
      | Inr (simpleMoves, captureMoves) \<Rightarrow>
         if length captureMoves > 0 then Inr captureMoves
         else
           (case hasAnyCaptureAvailable board playerColor of
              Inl e \<Rightarrow> Inl e
            | Inr anyCapture \<Rightarrow> if anyCapture then Inr [] else Inr simpleMoves))"

definition isPieceOwnedByPlayer :: "PlayerColor \<Rightarrow> Piece option \<Rightarrow> bool" where
  "isPieceOwnedByPlayer playerColor piece =
     (if piece = Some Empty then False
      else
        (let isPieceRed = isRed piece in
         (playerColor = PlayerRed \<and> isPieceRed) \<or> (playerColor = PlayerBlack \<and> \<not> isPieceRed)))"

text \<open>The loop of \<open>calculatePremoveValidMoves\<close>: one list, in the order of the pushes.\<close>

fun premoveMoves_loop ::
  "jsboard \<Rightarrow> bool \<Rightarrow> int \<Rightarrow> int \<Rightarrow> (int \<times> int) list \<Rightarrow> (int \<times> int) list \<Rightarrow>
   error + (int \<times> int) list" where
  "premoveMoves_loop board isRed' row col [] moves = Inr moves"
| "premoveMoves_loop board isRed' row col ((dr, dc) # ds) moves =
     (let newRow = row + dr; newCol = col + dc;
          simple =
            (if newRow \<ge> 0 \<and> newRow < 8 \<and> newCol \<ge> 0 \<and> newCol < 8 then
               (case at board newRow newCol of
                  Inl e \<Rightarrow> Inl e
                | Inr target \<Rightarrow>
                   Inr (if target = Some Empty then moves @ [(newRow, newCol)] else moves))
             else Inr moves)
      in case simple of
           Inl e \<Rightarrow> Inl e
         | Inr moves1 \<Rightarrow>
            (let jumpRow = row + 2 * dr; jumpCol = col + 2 * dc;
                 midRow = row + dr; midCol = col + dc;
                 capture =
                   (if jumpRow \<ge> 0 \<and> jumpRow < 8 \<and> jumpCol \<ge> 0 \<and> jumpCol < 8 then
                      (case at board jumpRow jumpCol of
                         Inl e \<Rightarrow> Inl e
                       | Inr landing \<Rightarrow>
                          if landing = Some Empty then
                            (case at board midRow midCol of
                               Inl e \<Rightarrow> Inl e
                             | Inr midPiece \<Rightarrow>
                                Inr (if isEnemy isRed' midPiece
                                     then moves1 @ [(jumpRow, jumpCol)]
                                     else moves1))
                          else Inr moves1)
                    else Inr moves1)
             in case capture of
                  Inl e \<Rightarrow> Inl e
                | Inr moves2 \<Rightarrow> premoveMoves_loop board isRed' row col ds moves2))"

definition calculatePremoveValidMoves ::
  "jsboard \<Rightarrow> int \<Rightarrow> int \<Rightarrow> Piece option \<Rightarrow> error + (int \<times> int) list" where
  "calculatePremoveValidMoves board row col piece =
     premoveMoves_loop board (isRed piece) row col (directions piece) []"

text \<open>
  \<open>handlePremoveClick\<close>, on the component's premove selection; the callbacks of the
  page (\<open>onPremove\<close>, \<open>onCancelPremove\<close>) and the sounds are returned in call order.
  \<open>premove\<close> is the pending premove the page passes down.
\<close>

datatype callback = OnPremove int int int int | OnCancelPremove | PlaySound string

record PremoveSelection =
  premoveFrom :: "(int \<times> int) option"
  premoveValidMoves :: "(int \<times> int) list"

definition handlePremoveClick ::
  "jsboard \<Rightarrow> PlayerColor \<Rightarrow> MoveInfo option \<Rightarrow> int \<Rightarrow> int \<Rightarrow> PremoveSelection \<Rightarrow>
   error + (PremoveSelection \<times> callback list)" where
  "handlePremoveClick board playerColor premove row col ui =
     (case at board row col of
        Inl e \<Rightarrow> Inl e
      | Inr piece \<Rightarrow>
         if isPieceOwnedByPlayer playerColor piece then
           (case calculatePremoveValidMoves board row col piece of
              Inl e \<Rightarrow> Inl e
            | Inr ms \<Rightarrow>
               Inr (\<lparr>premoveFrom = Some (row, col), premoveValidMoves = ms\<rparr>,
                    PlaySound ''select'' # (if premove \<noteq> None then [OnCancelPremove] else [])))
         else
           (case premoveFrom ui of
              Some (fr, fc) \<Rightarrow>
               Inr (\<lparr>premoveFrom = None, premoveValidMoves = []\<rparr>,
                    if (row, col) \<in> set (premoveValidMoves ui)
                    then [OnPremove fr fc row col, PlaySound ''move''] else [])
            | None \<Rightarrow> Inr (ui, if premove \<noteq> None then [OnCancelPremove] else [])))"

subsection \<open>The legality rules in the specification's words\<close>

text \<open>
  The piece on a square; the diagonals of a piece (the two forward ones for a man, down
  the board for red and up for black, all four for a king); an opposing piece; the
  empty adjacent squares and the jump landings of a piece; whether any piece of a side
  has a jump.
\<close>

definition holds :: "jsboard \<Rightarrow> int \<Rightarrow> int \<Rightarrow> Piece option" where
  "holds board r c = (case at board r c of Inl e \<Rightarrow> None | Inr v \<Rightarrow> v)"

definition sideOf :: "Piece option \<Rightarrow> PlayerColor" where
  "sideOf piece =
     (if piece = Some Red \<or> piece = Some RedKing then PlayerRed
      else if piece = Some Black \<or> piece = Some BlackKing then PlayerBlack
      else Spectator)"

definition ownedBy :: "PlayerColor \<Rightarrow> Piece option \<Rightarrow> bool" where
  "ownedBy player piece \<longleftrightarrow> player \<noteq> Spectator \<and> sideOf piece = player"

definition opposing :: "Piece option \<Rightarrow> Piece option \<Rightarrow> bool" where
  "opposing piece other \<longleftrightarrow>
     (sideOf piece = PlayerRed \<and> sideOf other = PlayerBlack) \<or>
     (sideOf piece = PlayerBlack \<and> sideOf other = PlayerRed)"

definition diagonals :: "Piece option \<Rightarrow> (int \<times> int) list" where
  "diagonals piece =
     (let forward = (if sideOf piece = PlayerRed then 1 else -1) in
      if piece = Some RedKing \<or> piece = Some BlackKing
      then [(- 1, - 1), (- 1, 1), (1, - 1), (1, 1)]
      else [(forward, - 1), (forward, 1)])"

definition emptySquare :: "jsboard \<Rightarrow> int \<Rightarrow> int \<Rightarrow> bool" where
  "emptySquare board r c \<longleftrightarrow> onBoard r c \<and> holds board r c = Some Empty"

definition simpleDestinations :: "jsboard \<Rightarrow> int \<Rightarrow> int \<Rightarrow> Piece option \<Rightarrow> (int \<times> int) list" where
  "simpleDestinations board row col piece =
     map (\<lambda>(dr, dc). (row + dr, col + dc))
       (filter (\<lambda>(dr, dc). emptySquare board (row + dr) (col + dc)) (diagonals piece))"

definition canJump :: "jsboard \<Rightarrow> int \<Rightarrow> int \<Rightarrow> Piece option \<Rightarrow> int \<times> int \<Rightarrow> bool" where
  "canJump board row col piece d \<longleftrightarrow>
     emptySquare board (row + 2 * fst d) (col + 2 * snd d) \<and>
     opposing piece (holds board (row + fst d) (col + snd d))"

definition captureDestinations :: "jsboard \<Rightarrow> int \<Rightarrow> int \<Rightarrow> Piece option \<Rightarrow> (int \<times> int) list" where
  "captureDestinations board row col piece =
     map (\<lambda>(dr, dc). (row + 2 * dr, col + 2 * dc))
       (filter (canJump board row col piece) (diagonals piece))"

definition anyFriendlyCapture :: "jsboard \<Rightarrow> PlayerColor \<Rightarrow> bool" where
  "anyFriendlyCapture board player \<longleftrightarrow>
     (\<exists>r \<in> set [0..7]. \<exists>c \<in> set [0..7].
        ownedBy player (holds board r c) \<and>
        captureDestinations board r c (holds board r c) \<noteq> [])"

text \<open>The per-direction jump test and the per-square test of the capture scan.\<close>

definition jumpTest :: "jsboard \<Rightarrow> bool \<Rightarrow> int \<Rightarrow> int \<Rightarrow> int \<times> int \<Rightarrow> bool" where
  "jumpTest board red row col d \<longleftrightarrow>
     emptySquare board (row + 2 * fst d) (col + 2 * snd d) \<and>
     isEnemy red (holds board (row + fst d) (col + snd d))"

definition pieceCaptures :: "jsboard \<Rightarrow> bool \<Rightarrow> int \<Rightarrow> int \<Rightarrow> bool" where
  "pieceCaptures board playerRed row col \<longleftrightarrow>
     holds board row col \<noteq> Some Empty \<and> playerRed = isRed (holds board row col) \<and>
     (\<exists>d \<in> set (directions (holds board row col)).
        jumpTest board (isRed (holds board row col)) row col d)"

definition captureBoard :: string where
  "captureBoard = ''.r.r.r.r/r.r.r.r./.r.r.r.r/..b...../......../b...b.b./.b.b.b.b/b.b.b.b.''"

definition valBoard :: "jsboard \<Rightarrow> bool" where
  "valBoard board \<longleftrightarrow>
     is8x8 board \<and> (\<forall>row \<in> set board. \<forall>x \<in> set row. x \<noteq> Hole \<and> x \<noteq> Undefined)"

definition startGame :: CheckersGame where
  "startGame = \<lparr>gameId = ''g1'', redPlayer = Some ''alice'', blackPlayer = Some ''bob'',
     boardState = startBoard, currentTurn = TurnRed, moveCount = 0, status = Active,
     hasMoves = True, clock = None\<rparr>"

definition startStore :: GameStore where
  "startStore = \<lparr>games = [startGame], selectedGame = Some startGame,
     selectedGameId = Some ''g1'', isLoading = False, isMoving = False, error = None,
     previousState = None\<rparr>"

definition promotingCapture :: MoveInfo where
  "promotingCapture = \<lparr>fromRow = 5, fromCol = 1, toRow = 7, toCol = 3\<rparr>"

definition promotingBoard :: string where
  "promotingBoard = ''......../......../......../......../......../.r....../..b...../........''"

definition openingMove :: MoveInfo where
  "openingMove = \<lparr>fromRow = 2, fromCol = 1, toRow = 3, toCol = 2\<rparr>"

section \<open>Game-state synchronizer: fetches and move submission (store/game.ts)\<close>

text \<open>
  JavaScript truthiness of an optional string: \<open>null\<close> and the empty string are falsy.
  A \<open>reply\<close> is how an awaited request settles; a rejection carries the message the
  \<open>catch\<close> block stores.
\<close>

definition truthy :: "string option \<Rightarrow> bool" where
  "truthy v \<longleftrightarrow> v \<noteq> None \<and> v \<noteq> Some []"

datatype 'a reply = Resolved 'a | Rejected string

text \<open>
  \<open>fetchGames\<close> up to its \<open>await\<close>, and from the arrival of the reply on.
  \<open>data?.allGames || []\<close>: a reply without the list counts as the empty list.
\<close>

definition fetchGames_start :: "GameStore \<Rightarrow> GameStore" where
  "fetchGames_start s = s\<lparr>isLoading := True, error := None\<rparr>"

definition fetchGames_arrive :: "CheckersGame list option reply \<Rightarrow> GameStore \<Rightarrow> GameStore" where
  "fetchGames_arrive r s =
     (case r of
        Rejected msg \<Rightarrow> s\<lparr>error := Some msg, isLoading := False\<rparr>
      | Resolved allGames \<Rightarrow>
         (let games' = (case allGames of None \<Rightarrow> [] | Some gs \<Rightarrow> gs);
              s1 = s\<lparr>games := games', isLoading := False\<rparr>
          in if truthy (selectedGameId s1) then
               (case find (\<lambda>g. Some (gameId g) = selectedGameId s1) games' of
                  None \<Rightarrow> s1
                | Some updated \<Rightarrow>
                   (case selectedGame s1 of
                      None \<Rightarrow> s1\<lparr>selectedGame := Some updated\<rparr>
                    | Some currentSelectedGame \<Rightarrow>
                       if moveCount updated \<ge> moveCount currentSelectedGame
                       then s1\<lparr>selectedGame := Some updated\<rparr>
                       else s1))
             else s1))"

text \<open>\<open>fetchGame\<close>: the arrival replaces the selected game whatever its move count.\<close>

definition fetchGame_start :: "GameStore \<Rightarrow> GameStore" where
  "fetchGame_start s = s\<lparr>isLoading := True, error := None\<rparr>"

definition fetchGame_arrive :: "string \<Rightarrow> CheckersGame option reply \<Rightarrow> GameStore \<Rightarrow> GameStore" where
  "fetchGame_arrive gid r s =
     (case r of
        Rejected msg \<Rightarrow> s\<lparr>error := Some msg, isLoading := False\<rparr>
      | Resolved None \<Rightarrow> s\<lparr>error := Some ''Game not found'', isLoading := False\<rparr>
      | Resolved (Some game) \<Rightarrow>
         s\<lparr>selectedGame := Some game, selectedGameId := Some gid, isLoading := False,
           games := map (\<lambda>g. if gameId g = gid then game else g) (games s)\<rparr>)"

text \<open>
  While a call awaits, other callbacks of the single event thread may run and write
  the store; \<open>during\<close> is what they do. \<open>fetchGame\<close> is the whole awaited call.
\<close>

definition fetchGame ::
  "string \<Rightarrow> CheckersGame option reply \<Rightarrow> (GameStore \<Rightarrow> GameStore) \<Rightarrow> GameStore \<Rightarrow> GameStore" where
  "fetchGame gid r during s = fetchGame_arrive gid r (during (fetchGame_start s))"

text \<open>
  The wallet store (the second store of store/game.ts), with the fields the game store
  and the page read. \<open>requestAsync\<close> refuses to send unless the wallet is ready and
  has a chain id: it then throws \<open>Wallet not connected\<close> before any request leaves.
\<close>

record Wallet =
  chainId :: "string option"
  playerId :: "string option"
  ready :: bool

text \<open>
  What the client does besides writing its stores: the mutations that leave for the
  service, notifications, waits, and calls of the store's \<open>fetchGame\<close> (whose own query
  goes through \<open>requestAsync\<close> as well; its outcome is the reply the environment gives).
\<close>

datatype effect =
    SendMove string MoveInfo string
  | SendResign string string
  | SendClaimTimeWin string
  | IncrementNotification
  | Sleep nat
  | FetchGame string

text \<open>
  \<open>requestAsync\<close> for a mutation: the outcome the caller awaits and the requests that
  left. \<open>net\<close> is how the service answers a request that did leave.
\<close>

definition requestAsync :: "Wallet \<Rightarrow> effect \<Rightarrow> unit reply \<Rightarrow> unit reply \<times> effect list" where
  "requestAsync w request net =
     (if \<not> ready w \<or> \<not> truthy (chainId w) then (Rejected ''Wallet not connected'', [])
      else (net, [request]))"

text \<open>
  A trace lists the effects of a call in order, each with the game store as it is at
  the moment the effect happens.
\<close>

type_synonym trace = "(effect \<times> GameStore) list"

definition stamp :: "GameStore \<Rightarrow> effect list \<Rightarrow> trace" where
  "stamp s effs = map (\<lambda>e. (e, s)) effs"

text \<open>
  The environment of one \<open>makeMove\<close> call: how the service answers the mutation, what
  each of the three fetches returns, and what other callbacks do to the store at each
  \<open>await\<close>.
\<close>

record Env =
  sendReply :: "unit reply"
  duringSend :: "GameStore \<Rightarrow> GameStore"
  duringSettle :: "GameStore \<Rightarrow> GameStore"
  fetchReply :: "nat \<Rightarrow> CheckersGame option reply"
  duringFetch :: "nat \<Rightarrow> GameStore \<Rightarrow> GameStore"
  duringBackoff :: "nat \<Rightarrow> GameStore \<Rightarrow> GameStore"

text \<open>The retry loop of \<open>makeMove\<close>, over the attempt numbers 0, 1, 2.\<close>

fun retryLoop ::
  "Env \<Rightarrow> string \<Rightarrow> int \<Rightarrow> nat list \<Rightarrow> GameStore \<Rightarrow> GameStore \<times> trace" where
  "retryLoop env gid oldMoveCount [] s = (s, [])"
| "retryLoop env gid oldMoveCount (i # rest) s =
     (if selectedGameId s \<noteq> Some gid then (s, [])
      else
        (let s1 = fetchGame gid (fetchReply env i) (duringFetch env i) s in
         case selectedGame s1 of
           None \<Rightarrow> (s1, [(FetchGame gid, s)])
         | Some updatedGame \<Rightarrow>
            if gameId updatedGame \<noteq> gid then (s1, [(FetchGame gid, s)])
            else if moveCount updatedGame > oldMoveCount then (s1, [(FetchGame gid, s)])
            else
              (case retryLoop env gid oldMoveCount rest (duringBackoff env i s1) of
                 (s2, tr) \<Rightarrow> (s2, (FetchGame gid, s) # (Sleep 500, s1) # tr))))"

text \<open>
  \<open>makeMove\<close>: the value returned, the store left behind and the trace. The store
  and the wallet are read at the call; the guard is written to the store before
  \<open>requestAsync\<close> is called and again after the \<open>try\<close> block or in its \<open>catch\<close>.
\<close>

definition makeMove ::
  "Env \<Rightarrow> Wallet \<Rightarrow> MoveInfo \<Rightarrow> GameStore \<Rightarrow> bool \<times> GameStore \<times> trace" where
  "makeMove env w from s =
     (case (selectedGame s, selectedGameId s) of
        (Some game, Some gid) \<Rightarrow>
         if gid = [] then (False, s\<lparr>error := Some ''No game selected''\<rparr>, [])
         else
           (case playerId w of
              None \<Rightarrow> (False, s\<lparr>error := Some ''Player ID not available''\<rparr>, [])
            | Some pid \<Rightarrow>
               if pid = [] then (False, s\<lparr>error := Some ''Player ID not available''\<rparr>, [])
               else if isMoving s then (False, s, [])
               else
                 (let s1 = s\<lparr>isMoving := True, error := None\<rparr> in
                  case requestAsync w (SendMove gid from pid) (sendReply env) of
                    (outcome, left) \<Rightarrow>
                     (let s2 = duringSend env s1 in
                      case outcome of
                        Rejected msg \<Rightarrow>
                         (False, s2\<lparr>error := Some msg, isMoving := False\<rparr>, stamp s1 left)
                      | Resolved u \<Rightarrow>
                         (case retryLoop env gid (moveCount game) [0, 1, 2]
                                 (duringSettle env s2) of
                            (s3, tr) \<Rightarrow>
                             (True, s3\<lparr>isMoving := False\<rparr>,
                              stamp s1 left
                              @ [(IncrementNotification, s2), (Sleep 800, s2)] @ tr)))))
      | _ \<Rightarrow> (False, s\<lparr>error := Some ''No game selected''\<rparr>, []))"



definition walletConnected :: "Wallet \<Rightarrow> bool" where
  "walletConnected w \<longleftrightarrow> ready w \<and> truthy (chainId w)"

text \<open>
  An environment in which nothing interferes and every fetch returns the given game;
  one in which another action holds the guard while the move is sent and confirmed;
  a connected wallet and a disconnected one (\<open>disconnect\<close> keeps the player id).
\<close>

definition quietEnv :: "unit reply \<Rightarrow> CheckersGame \<Rightarrow> Env" where
  "quietEnv r g = \<lparr>sendReply = r, duringSend = (\<lambda>s. s), duringSettle = (\<lambda>s. s),
     fetchReply = (\<lambda>i. Resolved (Some g)), duringFetch = (\<lambda>i s. s),
     duringBackoff = (\<lambda>i s. s)\<rparr>"


definition aliceWallet :: Wallet where
  "aliceWallet = \<lparr>chainId = Some ''chain1'', playerId = Some ''alice'', ready = True\<rparr>"


text \<open>Snapshots of game g1 with the given move counts, arriving one after the other.\<close>

definition snapshot :: "int \<Rightarrow> CheckersGame" where
  "snapshot n = startGame\<lparr>moveCount := n\<rparr>"

definition arrivals_fetchGame :: "int list \<Rightarrow> GameStore \<Rightarrow> GameStore" where
  "arrivals_fetchGame ns s =
     foldl (\<lambda>s n. fetchGame ''g1'' (Resolved (Some (snapshot n))) (\<lambda>s. s) s) s ns"

definition arrivals_fetchGames :: "int list \<Rightarrow> GameStore \<Rightarrow> GameStore" where
  "arrivals_fetchGames ns s =
     foldl (\<lambda>s n. fetchGames_arrive (Resolved (Some [snapshot n])) (fetchGames_start s)) s ns"

section \<open>Premove queue (page.tsx)\<close>

text \<open>
  The page's premove slot and the ref that remembers whether it was the local player's
  turn at the last run of the premove effect.
\<close>

record PremovePage =
  premove :: "MoveInfo option"
  prevIsMyTurnForPremove :: bool

text \<open>The page's \<open>playerColor\<close> and \<open>isMyTurn\<close>, from the selected game and the player id.\<close>

definition playerColor :: "Wallet \<Rightarrow> GameStore \<Rightarrow> PlayerColor" where
  "playerColor w s =
     (case selectedGame s of
        None \<Rightarrow> Spectator
      | Some g \<Rightarrow>
         if \<not> truthy (playerId w) then Spectator
         else if redPlayer g = playerId w then PlayerRed
         else if blackPlayer g = playerId w then PlayerBlack
         else Spectator)"

definition isMyTurn :: "Wallet \<Rightarrow> GameStore \<Rightarrow> bool" where
  "isMyTurn w s =
     (case selectedGame s of
        None \<Rightarrow> False
      | Some g \<Rightarrow>
         if \<not> truthy (playerId w) then False
         else
           (let color = (if redPlayer g = playerId w then PlayerRed
                         else if blackPlayer g = playerId w then PlayerBlack
                         else Spectator)
            in if color = Spectator then False
               else if color = PlayerRed \<and> currentTurn g = TurnRed then True
               else if color = PlayerBlack \<and> currentTurn g = TurnBlack then True
               else False))"

definition handlePremove :: "int \<Rightarrow> int \<Rightarrow> int \<Rightarrow> int \<Rightarrow> PremovePage \<Rightarrow> PremovePage" where
  "handlePremove fromRow' fromCol' toRow' toCol' pg =
     pg\<lparr>premove := Some \<lparr>fromRow = fromRow', fromCol = fromCol',
                           toRow = toRow', toCol = toCol'\<rparr>\<rparr>"

definition handleCancelPremove :: "PremovePage \<Rightarrow> PremovePage" where
  "handleCancelPremove pg = (if premove pg \<noteq> None then pg\<lparr>premove := None\<rparr> else pg)"

text \<open>
  One run of the premove effect: the page it leaves, and whether it set the 100 ms timer.
\<close>

definition premoveEffect :: "Wallet \<Rightarrow> GameStore \<Rightarrow> PremovePage \<Rightarrow> PremovePage \<times> bool" where
  "premoveEffect w s pg =
     (pg\<lparr>prevIsMyTurnForPremove := isMyTurn w s\<rparr>,
      isMyTurn w s \<and> \<not> prevIsMyTurnForPremove pg \<and> premove pg \<noteq> None \<and>
      map_option status (selectedGame s) = Some Active)"

text \<open>
  The timer's callback: it takes the premove pending now, empties the slot and calls
  \<open>makeMove\<close> with it; the result of that call is returned when it was made.
\<close>

definition premoveTimeout ::
  "Env \<Rightarrow> Wallet \<Rightarrow> PremovePage \<Rightarrow> GameStore \<Rightarrow>
   PremovePage \<times> (bool \<times> GameStore \<times> trace) option" where
  "premoveTimeout env w pg s =
     (case premove pg of
        None \<Rightarrow> (pg, None)
      | Some pm \<Rightarrow> (pg\<lparr>premove := None\<rparr>, Some (makeMove env w pm s)))"

text \<open>
  A move that is legal on a board, in the specification's sense: its source holds a
  piece of the player and its destination is in the legal-move list of that piece.
\<close>

definition legalMove :: "string \<Rightarrow> PlayerColor \<Rightarrow> MoveInfo \<Rightarrow> bool" where
  "legalMove bs player mv =
     (let board = parseBoardState bs;
          piece = holds board (fromRow mv) (fromCol mv)
      in onBoard (fromRow mv) (fromCol mv) \<and> ownedBy player piece \<and>
         (case calculateValidMoves board player (fromRow mv) (fromCol mv) piece of
            Inl e \<Rightarrow> False
          | Inr ms \<Rightarrow> (toRow mv, toCol mv) \<in> set ms))"

definition emptyPage :: PremovePage where
  "emptyPage = \<lparr>premove = None, prevIsMyTurnForPremove = False\<rparr>"

text \<open>
  A premove staged on one board and executed on the next: red stages (2,1) to (3,2)
  while black is to move; black then moves its man from (4,3) to (3,2).
\<close>

definition stagingBoard :: string where
  "stagingBoard = ''.r.r.r.r/r.r.r.r./.r.r.r.r/......../...b..../b...b.b./.b.b.b.b/b.b.b.b.''"

definition flipGame :: CheckersGame where
  "flipGame = startGame\<lparr>boardState := captureBoard, moveCount := 7\<rparr>"

definition flipStore :: GameStore where
  "flipStore = startStore\<lparr>games := [flipGame], selectedGame := Some flipGame\<rparr>"

definition rejectingEnv :: Env where
  "rejectingEnv = quietEnv (Rejected ''Invalid move'') flipGame"

section \<open>Timeout arbiter (page.tsx)\<close>

datatype TimeControl = Bullet1m | Bullet2m | Blitz3m | Blitz5m | Rapid10m

text \<open>
  What one run of the timeout effect reads: the game store, the wallet, the page's
  \<open>selectedTimeControl\<close> (set only when the player picks a time control on the home
  view) and the page's two local clocks.
\<close>

record ArbiterInput =
  in_store :: GameStore
  in_wallet :: Wallet
  in_selectedTimeControl :: "TimeControl option"
  in_redTimeMs :: int
  in_blackTimeMs :: int

text \<open>
  The arbiter's state: the ref \<open>timeWinClaimInProgress\<close>; the time in milliseconds;
  the number of resign and claim promises not yet settled; the deadlines of the reset
  timers set by \<open>finally\<close>; and the mutations that left for the service so far.
\<close>

record Arbiter =
  timeWinClaimInProgress :: bool
  clockMs :: nat
  unsettled :: nat
  resetTimers :: "nat list"
  issued :: "effect list"

text \<open>
  The store's \<open>resign\<close> and \<open>claimTimeWin\<close> up to their first \<open>await\<close>: the requests
  that leave. Both send through \<open>requestAsync\<close>; what leaves does not depend on how the
  service will answer.
\<close>

definition resign_send :: "GameStore \<Rightarrow> Wallet \<Rightarrow> effect list" where
  "resign_send s w =
     (case selectedGameId s of
        None \<Rightarrow> []
      | Some gid \<Rightarrow>
         if gid = [] then []
         else
           (case playerId w of
              None \<Rightarrow> []
            | Some pid \<Rightarrow>
               if pid = [] then []
               else snd (requestAsync w (SendResign gid pid) (Resolved ()))))"

definition claimTimeWin_send :: "Wallet \<Rightarrow> string \<Rightarrow> effect list" where
  "claimTimeWin_send w gid = snd (requestAsync w (SendClaimTimeWin gid) (Resolved ()))"

definition tick :: "ArbiterInput \<Rightarrow> Arbiter \<Rightarrow> Arbiter" where
  "tick i a =
     (case selectedGame (in_store i) of
        None \<Rightarrow> a
      | Some g \<Rightarrow>
         if status g \<noteq> Active then a
         else if in_selectedTimeControl i = None then a
         else if playerColor (in_wallet i) (in_store i) = Spectator then a
         else
           (let color = playerColor (in_wallet i) (in_store i);
                opponentExpired =
                  (if color = PlayerRed then in_blackTimeMs i \<le> 0 else in_redTimeMs i \<le> 0);
                myTimeExpiredLocal =
                  (if color = PlayerRed then in_redTimeMs i \<le> 0 else in_blackTimeMs i \<le> 0)
            in if myTimeExpiredLocal \<and> \<not> opponentExpired \<and> \<not> timeWinClaimInProgress a then
                 a\<lparr>timeWinClaimInProgress := True,
                   issued := issued a @ resign_send (in_store i) (in_wallet i),
                   unsettled := unsettled a + 1\<rparr>
               else if opponentExpired \<and> \<not> timeWinClaimInProgress a then
                 a\<lparr>timeWinClaimInProgress := True,
                   issued := issued a @ claimTimeWin_send (in_wallet i) (gameId g),
                   unsettled := unsettled a + 1\<rparr>
               else a))"

text \<open>
  The other events: a pending promise settles and \<open>finally\<close> sets the 2000 ms timer;
  time passes; a timer that is due fires and clears the ref.
\<close>

definition settle :: "Arbiter \<Rightarrow> Arbiter" where
  "settle a =
     (if unsettled a > 0
      then a\<lparr>unsettled := unsettled a - 1, resetTimers := resetTimers a @ [clockMs a + 2000]\<rparr>
      else a)"

definition elapse :: "nat \<Rightarrow> Arbiter \<Rightarrow> Arbiter" where
  "elapse d a = a\<lparr>clockMs := clockMs a + d\<rparr>"

definition fire :: "Arbiter \<Rightarrow> Arbiter" where
  "fire a =
     (case filter (\<lambda>t. t \<le> clockMs a) (resetTimers a) of
        [] \<Rightarrow> a
      | t # ts \<Rightarrow> a\<lparr>timeWinClaimInProgress := False,
                     resetTimers := remove1 t (resetTimers a)\<rparr>)"

datatype arbiterEvent = Tick ArbiterInput | Settle | Elapse nat | Fire

fun step :: "arbiterEvent \<Rightarrow> Arbiter \<Rightarrow> Arbiter" where
  "step (Tick i) a = tick i a"
| "step Settle a = settle a"
| "step (Elapse d) a = elapse d a"
| "step Fire a = fire a"











text \<open>The standard starting position written with blanks for the empty squares.\<close>

definition blankStart :: string where
  "blankStart = '' r r r r/r r r r / r r r r/        /        /b b b b / b b b b/b b b b ''"

section \<open>Codec lemmas\<close>

lemma split_slash_nonempty: "split_slash s \<noteq> []"
  by (induction s) (auto split: list.splits)

lemma join_slash_Cons: "rs \<noteq> [] \<Longrightarrow> join_slash (r # rs) = r @ CHR ''/'' # join_slash rs"
  by (cases rs) auto

lemma join_split_slash: "join_slash (split_slash s) = s"
proof (induction s)
  case Nil
  show ?case by simp
next
  case (Cons c cs)
  show ?case
  proof (cases "c = CHR ''/''")
    case True
    with Cons show ?thesis
      by (simp add: join_slash_Cons split_slash_nonempty)
  next
    case False
    obtain r rs where rs: "split_slash cs = r # rs"
      using split_slash_nonempty [of cs] by (cases "split_slash cs") auto
    have "join_slash ((c # r) # rs) = c # join_slash (r # rs)"
      by (cases rs) auto
    with False rs Cons show ?thesis by simp
  qed
qed

lemma set_split_slash: "row \<in> set (split_slash s) \<Longrightarrow> set row \<subseteq> set s - {CHR ''/''}"
proof (induction s arbitrary: row)
  case Nil
  then show ?case by simp
next
  case (Cons c cs)
  obtain r rs where rs: "split_slash cs = r # rs"
    using split_slash_nonempty [of cs] by (cases "split_slash cs") auto
  have r: "set r \<subseteq> set cs - {CHR ''/''}"
    using Cons.IH [of r] rs by simp
  have rest: "\<And>x. x \<in> set rs \<Longrightarrow> set x \<subseteq> set cs - {CHR ''/''}"
    using Cons.IH rs by simp
  show ?case
  proof (cases "c = CHR ''/''")
    case True
    with Cons.prems rs r rest show ?thesis by auto
  next
    case False
    with Cons.prems rs r rest show ?thesis by auto
  qed
qed

lemma char_roundtrip:
  "ch \<in> dotAlphabet \<Longrightarrow> charOfPiece (Some (pieceOfChar ch)) = ch"
  by (auto simp: dotAlphabet_def charOfPiece_def pieceOfChar_def)

lemma row_roundtrip:
  "set row \<subseteq> dotAlphabet \<Longrightarrow>
   concat (map slotString (map (\<lambda>ch. Val (pieceOfChar ch)) row)) = row"
  by (induction row) (simp_all add: char_roundtrip)

lemma rows_roundtrip:
  assumes "\<forall>row \<in> set rows. set row \<subseteq> dotAlphabet"
  shows "map (\<lambda>row. concat (map slotString row))
           (map (map (\<lambda>ch. Val (pieceOfChar ch))) rows) = rows"
  using assms by (induction rows) (simp_all add: row_roundtrip del: map_map)

lemma roundtrip_dot_chars:
  assumes "set s \<subseteq> insert CHR ''/'' dotAlphabet"
  shows "boardToString (parseBoardState s) = s"
proof -
  have "\<forall>row \<in> set (split_slash s). set row \<subseteq> dotAlphabet"
    using set_split_slash [of _ s] assms by blast
  then show ?thesis
    unfolding boardToString_def parseBoardState_def
    by (simp only: rows_roundtrip join_split_slash)
qed

section \<open>Claims about the codec\<close>

text \<open>
  C4. The claim: for every well-formed board string over the wire alphabet, blank for an
  empty square, encoding the decoded board gives the string back. \<open>parseBoardState\<close>
  reads a blank as an empty square, but \<open>boardToString\<close> writes an empty square as a
  dot: the starting position written with blanks comes back with dots, although both
  strings decode to the same board. The same happens for every string with a blank in it.
\<close>

theorem boardToString_parseBoardState_blank_start:
  "map length (split_slash blankStart) = [8, 8, 8, 8, 8, 8, 8, 8] \<and>
   set blankStart \<subseteq> insert CHR ''/'' specAlphabet \<and>
   boardToString (parseBoardState blankStart) = startBoard \<and>
   boardToString (parseBoardState blankStart) \<noteq> blankStart \<and>
   parseBoardState startBoard = parseBoardState blankStart"
proof -
  have 1: "map length (split_slash blankStart) = [8, 8, 8, 8, 8, 8, 8, 8]"
    by code_simp
  have 2: "set blankStart \<subseteq> insert CHR ''/'' specAlphabet"
    by (simp add: blankStart_def specAlphabet_def)
  have 3: "boardToString (parseBoardState blankStart) = startBoard"
    by code_simp
  have 4: "startBoard \<noteq> blankStart"
    by (simp add: startBoard_def blankStart_def)
  have 5: "parseBoardState startBoard = parseBoardState blankStart"
    by code_simp
  show ?thesis using 1 2 3 4 5 by simp
qed

lemma blank_never_written: "CHR '' '' \<notin> set (boardToString board)"
proof -
  have slot: "\<And>x. CHR '' '' \<notin> set (slotString x)"
    subgoal for x by (cases x) (simp_all add: charOfPiece_def)
    done
  have rows: "\<And>rows. (\<forall>r \<in> set rows. CHR '' '' \<notin> set r) \<Longrightarrow> CHR '' '' \<notin> set (join_slash rows)"
    subgoal for rows by (induction rows rule: join_slash.induct) auto
    done
  show ?thesis
    unfolding boardToString_def by (rule rows) (auto simp: slot)
qed

lemma blank_breaks_roundtrip:
  "CHR '' '' \<in> set s \<Longrightarrow> boardToString (parseBoardState s) \<noteq> s"
  using blank_never_written [of "parseBoardState s"] by auto

text \<open>
  C10. For every board-state string and every pair of integers (row, col) with row or col
  outside 0..7, \<open>getPiece\<close> returns \<open>Piece.Empty\<close>: it neither raises nor reads the board.
\<close>

theorem getPiece_out_of_range:
  assumes "row < 0 \<or> 7 < row \<or> col < 0 \<or> 7 < col"
  shows "getPiece bs row col = Inr (Some Empty)"
  using assms by (auto simp: getPiece_def Let_def)

theorem getPiece_out_of_range_witness:
  "((8::int) < 0 \<or> 7 < (8::int) \<or> (3::int) < 0 \<or> 7 < (3::int)) \<and>
   getPiece ''rrrr'' 8 3 = Inr (Some Empty)"
  using getPiece_out_of_range [of 8 3 "''rrrr''"] by simp

section \<open>Lemmas about the board transform\<close>

lemma split_slash_no_slash: "CHR ''/'' \<notin> set r \<Longrightarrow> split_slash r = [r]"
  by (induction r) auto

lemma split_slash_append:
  "CHR ''/'' \<notin> set r \<Longrightarrow> split_slash (r @ CHR ''/'' # rest) = r # split_slash rest"
  by (induction r) auto

lemma split_join_slash:
  "rows \<noteq> [] \<Longrightarrow> \<forall>r \<in> set rows. CHR ''/'' \<notin> set r \<Longrightarrow> split_slash (join_slash rows) = rows"
proof (induction rows rule: join_slash.induct)
  case 1
  then show ?case by simp
next
  case (2 r)
  then show ?case by (simp add: split_slash_no_slash)
next
  case (3 r v va)
  then show ?case by (simp add: split_slash_append)
qed

lemma charOfPiece_no_slash: "charOfPiece v \<noteq> CHR ''/''"
  by (simp add: charOfPiece_def)

lemma slotString_no_slash: "CHR ''/'' \<notin> set (slotString x)"
  by (cases x) (simp_all add: charOfPiece_def)

lemma pieceOfChar_charOfPiece: "pieceOfChar (charOfPiece (Some p)) = p"
  by (cases p) (simp_all add: charOfPiece_def pieceOfChar_def)

lemma row_decode_encode:
  "\<forall>x \<in> set row. x \<noteq> Hole \<and> x \<noteq> Undefined \<Longrightarrow>
   map (\<lambda>ch. Val (pieceOfChar ch)) (concat (map slotString row)) = row"
proof (induction row)
  case Nil
  then show ?case by simp
next
  case (Cons x row)
  then show ?case by (cases x) (simp_all add: pieceOfChar_charOfPiece)
qed

lemma rows_decode_encode:
  "\<forall>row \<in> set board. \<forall>x \<in> set row. x \<noteq> Hole \<and> x \<noteq> Undefined \<Longrightarrow>
   map (map (\<lambda>ch. Val (pieceOfChar ch))) (map (\<lambda>row. concat (map slotString row)) board) = board"
  by (induction board) (simp_all add: row_decode_encode del: map_map)

lemma onBoard_nat: "onBoard r c \<Longrightarrow> nat r < 8 \<and> nat c < 8 \<and> 0 \<le> r \<and> 0 \<le> c \<and> r < 8 \<and> c < 8"
  unfolding onBoard_def by arith

lemma parse_boardToString:
  assumes "valBoard board"
  shows "parseBoardState (boardToString board) = board"
proof -
  let ?rows = "map (\<lambda>row. concat (map slotString row)) board"
  have ne: "?rows \<noteq> []"
    using assms by (auto simp: valBoard_def is8x8_def)
  have ns: "\<forall>r \<in> set ?rows. CHR ''/'' \<notin> set r"
    using slotString_no_slash by auto
  have "split_slash (join_slash ?rows) = ?rows"
    using ne ns by (rule split_join_slash)
  moreover have "map (map (\<lambda>ch. Val (pieceOfChar ch))) ?rows = board"
    using assms rows_decode_encode [of board] unfolding valBoard_def by blast
  ultimately show ?thesis
    by (simp only: parseBoardState_def boardToString_def)
qed

lemma valBoard_parse: "is8x8 (parseBoardState bs) \<Longrightarrow> valBoard (parseBoardState bs)"
  by (auto simp: valBoard_def parseBoardState_def)

lemma at_valBoard:
  assumes "valBoard board" "onBoard r c"
  shows "\<exists>p. at board r c = Inr (Some p)"
proof -
  have r: "nat r < length board" and len: "length (board ! nat r) = 8"
    using assms by (auto simp: valBoard_def is8x8_def onBoard_def)
  have "board ! nat r \<in> set board" using r by simp
  moreover have c: "nat c < length (board ! nat r)" using len onBoard_nat [OF assms(2)] by simp
  ultimately have "board ! nat r ! nat c \<noteq> Hole \<and> board ! nat r ! nat c \<noteq> Undefined"
    using assms(1) by (auto simp: valBoard_def)
  then obtain p where "board ! nat r ! nat c = Val p"
    by (cases "board ! nat r ! nat c") auto
  then show ?thesis
    using r len onBoard_nat [OF assms(2)] by (simp add: at_def row_get_def)
qed

lemma board_set_valBoard:
  assumes "valBoard board" "onBoard r c"
  shows "\<exists>board'. board_set board r c (Some p) = Inr board' \<and> valBoard board' \<and>
           at board' r c = Inr (Some p)"
proof -
  have r: "nat r < length board" and len: "length (board ! nat r) = 8"
    using assms by (auto simp: valBoard_def is8x8_def onBoard_def)
  let ?row = "(board ! nat r)[nat c := Val p]"
  let ?b = "board[nat r := ?row]"
  have eq: "board_set board r c (Some p) = Inr ?b"
    using assms(2) r len by (simp add: board_set_def row_set_def onBoard_def slot_of_def)
  have rowok: "\<forall>x \<in> set ?row. x \<noteq> Hole \<and> x \<noteq> Undefined"
  proof
    fix x assume "x \<in> set ?row"
    then have "x \<in> insert (Val p) (set (board ! nat r))"
      using set_update_subset_insert by fastforce
    moreover have "board ! nat r \<in> set board" using r by simp
    ultimately show "x \<noteq> Hole \<and> x \<noteq> Undefined"
      using assms(1) by (auto simp: valBoard_def)
  qed
  have "valBoard ?b"
    unfolding valBoard_def is8x8_def
  proof (intro conjI ballI)
    show "length ?b = 8" using assms(1) by (simp add: valBoard_def is8x8_def)
  next
    fix row assume "row \<in> set ?b"
    then have "row = ?row \<or> row \<in> set board"
      using set_update_subset_insert by fastforce
    then show "length row = 8"
      using assms(1) len by (auto simp: valBoard_def is8x8_def)
  next
    fix row x assume "row \<in> set ?b" "x \<in> set row"
    moreover from this have "row = ?row \<or> row \<in> set board"
      using set_update_subset_insert by fastforce
    ultimately show "x \<noteq> Hole" "x \<noteq> Undefined"
      using assms(1) rowok by (auto simp: valBoard_def)
  qed
  moreover have "at ?b r c = Inr (Some p)"
    using onBoard_nat [OF assms(2)] r len by (simp add: at_def row_get_def)
  ultimately show ?thesis using eq by blast
qed


lemma newBoardState_on_board:
  assumes b: "is8x8 (parseBoardState bs)"
    and f: "onBoard (fromRow mv) (fromCol mv)" and t: "onBoard (toRow mv) (toCol mv)"
    and p: "at (parseBoardState bs) (fromRow mv) (fromCol mv) = Inr (Some p)"
  shows "\<exists>bs'. newBoardState bs mv = Inr bs' \<and>
           at (parseBoardState bs') (toRow mv) (toCol mv) = Inr (newPiece (Some p) (toRow mv))"
proof -
  let ?board = "parseBoardState bs"
  have v0: "valBoard ?board" using b by (rule valBoard_parse)
  obtain board1 where b1: "board_set ?board (fromRow mv) (fromCol mv) (Some Empty) = Inr board1"
    and v1: "valBoard board1"
    using board_set_valBoard [OF v0 f] by blast
  let ?captured = "(if \<bar>toRow mv - fromRow mv\<bar> = 2
                     then board_set board1 ((fromRow mv + toRow mv) div 2)
                            ((fromCol mv + toCol mv) div 2) (Some Empty)
                     else Inr board1)"
  have mid: "onBoard ((fromRow mv + toRow mv) div 2) ((fromCol mv + toCol mv) div 2)"
    using f t unfolding onBoard_def by arith
  obtain board2 where b2: "?captured = Inr board2" and v2: "valBoard board2"
    using board_set_valBoard [OF v1 mid, of Empty] v1 by (cases "\<bar>toRow mv - fromRow mv\<bar> = 2") auto
  have "\<exists>q. newPiece (Some p) (toRow mv) = Some q"
    by (simp add: newPiece_def)
  then obtain q where q: "newPiece (Some p) (toRow mv) = Some q" ..
  obtain board3 where b3: "board_set board2 (toRow mv) (toCol mv) (Some q) = Inr board3"
    and v3: "valBoard board3" and a3: "at board3 (toRow mv) (toCol mv) = Inr (Some q)"
    using board_set_valBoard [OF v2 t] by blast
  have "newBoardState bs mv = Inr (boardToString board3)"
    unfolding newBoardState_def Let_def using p b1 b2 b3 q by simp
  moreover have "at (parseBoardState (boardToString board3)) (toRow mv) (toCol mv) = Inr (Some q)"
    using a3 parse_boardToString [OF v3] by simp
  ultimately show ?thesis using q by simp
qed

section \<open>Claims about the optimistic move\<close>

text \<open>
  C6. For every state of the selected game, \<open>localMakeMove\<close> followed by
  \<open>rollbackMove\<close> restores the selected game (its board string, turn and move count)
  and the games list to what they were; the whole store is the prior one with the
  rollback snapshot dropped. This holds whether the move was applied or the board
  access raised.
\<close>

theorem localMakeMove_then_rollbackMove:
  assumes "selectedGame s = Some g"
  shows "rollbackMove (snd (localMakeMove mv s)) = s\<lparr>previousState := None\<rparr> \<and>
         selectedGame (rollbackMove (snd (localMakeMove mv s))) = Some g \<and>
         games (rollbackMove (snd (localMakeMove mv s))) = games s"
  using assms
  by (cases "newBoardState (boardState g) mv")
     (simp_all add: localMakeMove_def rollbackMove_def Let_def)

lemma openingMove_applied:
  "newBoardState startBoard openingMove =
     Inr ''.r.r.r.r/r.r.r.r./...r.r.r/..r...../......../b.b.b.b./.b.b.b.b/b.b.b.b.''"
  by code_simp

theorem localMakeMove_then_rollbackMove_witness:
  "selectedGame startStore = Some startGame \<and>
   selectedGame (snd (localMakeMove openingMove startStore)) \<noteq> Some startGame \<and>
   rollbackMove (snd (localMakeMove openingMove startStore)) =
     startStore\<lparr>previousState := None\<rparr> \<and>
   selectedGame (rollbackMove (snd (localMakeMove openingMove startStore))) = Some startGame \<and>
   games (rollbackMove (snd (localMakeMove openingMove startStore))) = games startStore"
proof -
  have sel: "selectedGame startStore = Some startGame"
    by (simp add: startStore_def)
  have "selectedGame (snd (localMakeMove openingMove startStore)) \<noteq> Some startGame"
    by (simp add: localMakeMove_def startStore_def startGame_def openingMove_applied Let_def)
  with sel localMakeMove_then_rollbackMove [OF sel, of openingMove] show ?thesis
    by simp
qed

text \<open>
  C7. For every move on the board applied by the board transform of \<open>localMakeMove\<close>
  to a decoded 8 by 8 board: the transform succeeds whatever the destination row is, the
  destination square of the resulting board holds \<open>newPiece\<close> of the moved piece and the
  destination row (nothing else enters the promotion), so a red man landing on row 7
  is a red king, a black man landing on row 0 is a black king, also when the move is
  a jump, and a king stays the king it was.
\<close>

theorem newBoardState_promotion:
  assumes "is8x8 (parseBoardState bs)"
    and "onBoard (fromRow mv) (fromCol mv)" and "onBoard (toRow mv) (toCol mv)"
    and "at (parseBoardState bs) (fromRow mv) (fromCol mv) = Inr (Some p)"
  shows "\<exists>bs'. newBoardState bs mv = Inr bs' \<and>
           at (parseBoardState bs') (toRow mv) (toCol mv) = Inr (newPiece (Some p) (toRow mv)) \<and>
           (p = Red \<and> toRow mv = 7 \<longrightarrow>
              at (parseBoardState bs') (toRow mv) (toCol mv) = Inr (Some RedKing)) \<and>
           (p = Black \<and> toRow mv = 0 \<longrightarrow>
              at (parseBoardState bs') (toRow mv) (toCol mv) = Inr (Some BlackKing)) \<and>
           (isKing (Some p) \<longrightarrow>
              at (parseBoardState bs') (toRow mv) (toCol mv) = Inr (Some p))"
proof -
  obtain bs' where 1: "newBoardState bs mv = Inr bs'"
    and 2: "at (parseBoardState bs') (toRow mv) (toCol mv) = Inr (newPiece (Some p) (toRow mv))"
    using newBoardState_on_board [OF assms] by blast
  have 3: "p = Red \<and> toRow mv = 7 \<longrightarrow> newPiece (Some p) (toRow mv) = Some RedKing"
    and 4: "p = Black \<and> toRow mv = 0 \<longrightarrow> newPiece (Some p) (toRow mv) = Some BlackKing"
    and 5: "isKing (Some p) \<longrightarrow> newPiece (Some p) (toRow mv) = Some p"
    by (auto simp: newPiece_def isKing_def)
  show ?thesis
  proof (intro exI conjI impI)
    show "newBoardState bs mv = Inr bs'" by (rule 1)
    show "at (parseBoardState bs') (toRow mv) (toCol mv) = Inr (newPiece (Some p) (toRow mv))"
      by (rule 2)
    show "at (parseBoardState bs') (toRow mv) (toCol mv) = Inr (Some RedKing)"
      if "p = Red \<and> toRow mv = 7" using that 2 3 by metis
    show "at (parseBoardState bs') (toRow mv) (toCol mv) = Inr (Some BlackKing)"
      if "p = Black \<and> toRow mv = 0" using that 2 4 by metis
    show "at (parseBoardState bs') (toRow mv) (toCol mv) = Inr (Some p)"
      if "isKing (Some p)" using that 2 5 by metis
  qed
qed

theorem newBoardState_promotion_witness:
  "is8x8 (parseBoardState promotingBoard) \<and>
   onBoard (fromRow promotingCapture) (fromCol promotingCapture) \<and>
   onBoard (toRow promotingCapture) (toCol promotingCapture) \<and>
   at (parseBoardState promotingBoard) (fromRow promotingCapture) (fromCol promotingCapture)
     = Inr (Some Red) \<and>
   toRow promotingCapture = 7 \<and>
   (\<exists>bs'. newBoardState promotingBoard promotingCapture = Inr bs' \<and>
      at (parseBoardState bs') (toRow promotingCapture) (toCol promotingCapture)
        = Inr (Some RedKing))"
proof -
  have h1: "is8x8 (parseBoardState promotingBoard)"
    by code_simp
  have h2: "onBoard (fromRow promotingCapture) (fromCol promotingCapture)"
    and h3: "onBoard (toRow promotingCapture) (toCol promotingCapture)"
    by (simp_all add: onBoard_def promotingCapture_def)
  have h4: "at (parseBoardState promotingBoard) (fromRow promotingCapture)
              (fromCol promotingCapture) = Inr (Some Red)"
    by code_simp
  have h5: "toRow promotingCapture = 7"
    by (simp add: promotingCapture_def)
  from newBoardState_promotion [OF h1 h2 h3 h4] h1 h2 h3 h4 h5 show ?thesis
    by auto
qed

section \<open>Lemmas about the legality engine\<close>

lemma at_holds:
  "length board = 8 \<Longrightarrow> 0 \<le> r \<Longrightarrow> r < 8 \<Longrightarrow> at board r c = Inr (holds board r c)"
  by (simp add: at_def holds_def)

lemma mid_in_range:
  fixes row dr :: int
  shows "0 \<le> row \<Longrightarrow> row < 8 \<Longrightarrow> 0 \<le> row + 2 * dr \<Longrightarrow> row + 2 * dr < 8 \<Longrightarrow>
         0 \<le> row + dr \<and> row + dr < 8"
  by arith

lemma hasCapture_dirs_eq:
  assumes "length board = 8" "onBoard row col"
  shows "hasCapture_dirs board red row col ds = Inr (\<exists>d \<in> set ds. jumpTest board red row col d)"
proof (induction ds)
  case Nil
  show ?case by simp
next
  case (Cons d ds)
  obtain dr dc where d: "d = (dr, dc)" by (cases d)
  show ?case
  proof (cases "onBoard (row + 2 * dr) (col + 2 * dc)")
    case True
    then have j: "0 \<le> row + 2 * dr" "row + 2 * dr < 8" by (simp_all add: onBoard_def)
    have m: "0 \<le> row + dr \<and> row + dr < 8"
      using mid_in_range [of row dr] assms(2) j by (simp add: onBoard_def)
    show ?thesis
      using True Cons.IH m j
      by (simp add: d onBoard_def at_holds [OF assms(1)] jumpTest_def emptySquare_def)
  next
    case False
    then show ?thesis
      using Cons.IH by (auto simp: d onBoard_def jumpTest_def emptySquare_def)
  qed
qed

lemma hasCapture_cols_eq:
  assumes "length board = 8" "0 \<le> row" "row < 8" "\<forall>c \<in> set cols. 0 \<le> c \<and> c < 8"
  shows "hasCapture_cols board playerRed row cols =
           Inr (\<exists>c \<in> set cols. pieceCaptures board playerRed row c)"
  using assms(4)
proof (induction cols)
  case Nil
  show ?case by simp
next
  case (Cons c cols)
  have ob: "onBoard row c" using Cons.prems assms(2,3) by (simp add: onBoard_def)
  have ih: "hasCapture_cols board playerRed row cols =
           Inr (\<exists>c \<in> set cols. pieceCaptures board playerRed row c)"
    using Cons by simp
  let ?piece = "holds board row c"
  have step: "hasCapture_cols board playerRed row (c # cols) =
     (if ?piece = Some Empty then hasCapture_cols board playerRed row cols
      else if playerRed \<noteq> isRed ?piece then hasCapture_cols board playerRed row cols
      else if (\<exists>d \<in> set (directions ?piece). jumpTest board (isRed ?piece) row c d)
           then Inr True else hasCapture_cols board playerRed row cols)"
    by (simp add: at_holds [OF assms(1,2,3)] hasCapture_dirs_eq [OF assms(1) ob] Let_def)
  show ?case
  proof (cases "pieceCaptures board playerRed row c")
    case True
    then show ?thesis unfolding step by (auto simp: pieceCaptures_def)
  next
    case False
    then have "hasCapture_cols board playerRed row (c # cols) =
                 hasCapture_cols board playerRed row cols"
      unfolding step by (auto simp: pieceCaptures_def)
    with False ih show ?thesis by simp
  qed
qed

lemma hasCapture_rows_eq:
  assumes "length board = 8" "\<forall>r \<in> set rows. 0 \<le> r \<and> r < 8"
  shows "hasCapture_rows board playerRed rows =
           Inr (\<exists>r \<in> set rows. \<exists>c \<in> set [0..7]. pieceCaptures board playerRed r c)"
  using assms(2)
proof (induction rows)
  case Nil
  show ?case by simp
next
  case (Cons r rows)
  have cols: "hasCapture_cols board playerRed r [0..7] =
           Inr (\<exists>c \<in> set [0..7]. pieceCaptures board playerRed r c)"
    using Cons.prems by (intro hasCapture_cols_eq [OF assms(1)]) auto
  have ih: "hasCapture_rows board playerRed rows =
           Inr (\<exists>r \<in> set rows. \<exists>c \<in> set [0..7]. pieceCaptures board playerRed r c)"
    using Cons by simp
  show ?case
    by (simp only: hasCapture_rows.simps cols ih) auto
qed

lemma hasAnyCaptureAvailable_eq:
  assumes "length board = 8"
  shows "hasAnyCaptureAvailable board player =
           Inr (\<exists>r \<in> set [0..7]. \<exists>c \<in> set [0..7]. pieceCaptures board (player = PlayerRed) r c)"
  unfolding hasAnyCaptureAvailable_def Let_def
  by (rule hasCapture_rows_eq [OF assms]) auto


lemma validMoves_loop_eq:
  assumes "length board = 8" "onBoard row col"
  shows "validMoves_loop board red row col ds sm cm =
           Inr (sm @ map (\<lambda>(dr, dc). (row + dr, col + dc))
                       (filter (\<lambda>(dr, dc). emptySquare board (row + dr) (col + dc)) ds),
                cm @ map (\<lambda>(dr, dc). (row + 2 * dr, col + 2 * dc))
                       (filter (jumpTest board red row col) ds))"
proof (induction ds arbitrary: sm cm)
  case Nil
  show ?case by simp
next
  case (Cons d ds)
  obtain dr dc where d: "d = (dr, dc)" by (cases d)
  let ?sm = "if emptySquare board (row + dr) (col + dc) then sm @ [(row + dr, col + dc)] else sm"
  let ?cm = "if jumpTest board red row col (dr, dc) then cm @ [(row + 2 * dr, col + 2 * dc)] else cm"
  have m: "onBoard (row + 2 * dr) (col + 2 * dc) \<Longrightarrow> 0 \<le> row + dr \<and> row + dr < 8"
    using mid_in_range [of row dr] assms(2) by (simp add: onBoard_def)
  have simple: "(if row + dr \<ge> 0 \<and> row + dr < 8 \<and> col + dc \<ge> 0 \<and> col + dc < 8 then
               (case at board (row + dr) (col + dc) of
                  Inl e \<Rightarrow> Inl e
                | Inr target \<Rightarrow>
                   Inr (if target = Some Empty then sm @ [(row + dr, col + dc)] else sm))
             else Inr sm) = Inr ?sm"
    by (auto simp: at_holds [OF assms(1)] emptySquare_def onBoard_def)
  have capture: "(if row + 2 * dr \<ge> 0 \<and> row + 2 * dr < 8 \<and> col + 2 * dc \<ge> 0 \<and> col + 2 * dc < 8 then
                      (case at board (row + 2 * dr) (col + 2 * dc) of
                         Inl e \<Rightarrow> Inl e
                       | Inr landing \<Rightarrow>
                          if landing = Some Empty then
                            (case at board (row + dr) (col + dc) of
                               Inl e \<Rightarrow> Inl e
                             | Inr midPiece \<Rightarrow>
                                Inr (if isEnemy red midPiece
                                     then cm' @ [(row + 2 * dr, col + 2 * dc)]
                                     else cm'))
                          else Inr cm')
                    else Inr cm') =
                 Inr (if jumpTest board red row col (dr, dc)
                      then cm' @ [(row + 2 * dr, col + 2 * dc)] else cm')" for cm'
  proof (cases "onBoard (row + 2 * dr) (col + 2 * dc)")
    case True
    with m show ?thesis
      by (simp add: at_holds [OF assms(1)] emptySquare_def onBoard_def jumpTest_def)
  next
    case False
    then show ?thesis
      by (auto simp: emptySquare_def onBoard_def jumpTest_def)
  qed
  have "validMoves_loop board red row col (d # ds) sm cm =
          validMoves_loop board red row col ds ?sm ?cm"
    unfolding d validMoves_loop.simps Let_def simple capture by simp
  then show ?case
    by (simp add: Cons.IH d)
qed

lemma premoveMoves_loop_set:
  assumes "length board = 8" "onBoard row col"
  shows "\<exists>ms. premoveMoves_loop board red row col ds moves = Inr ms \<and>
           set ms = set moves \<union>
             set (map (\<lambda>(dr, dc). (row + dr, col + dc))
                       (filter (\<lambda>(dr, dc). emptySquare board (row + dr) (col + dc)) ds)) \<union>
             set (map (\<lambda>(dr, dc). (row + 2 * dr, col + 2 * dc))
                       (filter (jumpTest board red row col) ds))"
proof (induction ds arbitrary: moves)
  case Nil
  show ?case by simp
next
  case (Cons d ds)
  obtain dr dc where d: "d = (dr, dc)" by (cases d)
  let ?m1 = "if emptySquare board (row + dr) (col + dc) then moves @ [(row + dr, col + dc)] else moves"
  let ?m2 = "if jumpTest board red row col (dr, dc) then ?m1 @ [(row + 2 * dr, col + 2 * dc)] else ?m1"
  have m: "onBoard (row + 2 * dr) (col + 2 * dc) \<Longrightarrow> 0 \<le> row + dr \<and> row + dr < 8"
    using mid_in_range [of row dr] assms(2) by (simp add: onBoard_def)
  have simple: "(if row + dr \<ge> 0 \<and> row + dr < 8 \<and> col + dc \<ge> 0 \<and> col + dc < 8 then
               (case at board (row + dr) (col + dc) of
                  Inl e \<Rightarrow> Inl e
                | Inr target \<Rightarrow>
                   Inr (if target = Some Empty then moves @ [(row + dr, col + dc)] else moves))
             else Inr moves) = Inr ?m1"
    by (auto simp: at_holds [OF assms(1)] emptySquare_def onBoard_def)
  have capture: "(if row + 2 * dr \<ge> 0 \<and> row + 2 * dr < 8 \<and> col + 2 * dc \<ge> 0 \<and> col + 2 * dc < 8 then
                      (case at board (row + 2 * dr) (col + 2 * dc) of
                         Inl e \<Rightarrow> Inl e
                       | Inr landing \<Rightarrow>
                          if landing = Some Empty then
                            (case at board (row + dr) (col + dc) of
                               Inl e \<Rightarrow> Inl e
                             | Inr midPiece \<Rightarrow>
                                Inr (if isEnemy red midPiece
                                     then m1 @ [(row + 2 * dr, col + 2 * dc)]
                                     else m1))
                          else Inr m1)
                    else Inr m1) =
                 Inr (if jumpTest board red row col (dr, dc)
                      then m1 @ [(row + 2 * dr, col + 2 * dc)] else m1)" for m1
  proof (cases "onBoard (row + 2 * dr) (col + 2 * dc)")
    case True
    with m show ?thesis
      by (simp add: at_holds [OF assms(1)] emptySquare_def onBoard_def jumpTest_def)
  next
    case False
    then show ?thesis
      by (auto simp: emptySquare_def onBoard_def jumpTest_def)
  qed
  have step: "premoveMoves_loop board red row col (d # ds) moves =
          premoveMoves_loop board red row col ds ?m2"
    unfolding d premoveMoves_loop.simps Let_def simple capture by simp
  obtain ms where ms: "premoveMoves_loop board red row col ds ?m2 = Inr ms"
    and set_ms: "set ms = set ?m2 \<union>
             set (map (\<lambda>(dr, dc). (row + dr, col + dc))
                       (filter (\<lambda>(dr, dc). emptySquare board (row + dr) (col + dc)) ds)) \<union>
             set (map (\<lambda>(dr, dc). (row + 2 * dr, col + 2 * dc))
                       (filter (jumpTest board red row col) ds))"
    using Cons.IH [of ?m2] by blast
  show ?case
    unfolding step ms using set_ms by (auto simp: d)
qed

lemma owned_cases:
  assumes "ownedBy player piece"
  shows "(player = PlayerRed \<and> (piece = Some Red \<or> piece = Some RedKing)) \<or>
         (player = PlayerBlack \<and> (piece = Some Black \<or> piece = Some BlackKing))"
  using assms by (cases player) (auto simp: ownedBy_def sideOf_def split: if_splits)

lemma owned_directions: "ownedBy player piece \<Longrightarrow> directions piece = diagonals piece"
  by (drule owned_cases) (auto simp: directions_def diagonals_def isKing_def isRed_def sideOf_def Let_def)

lemma owned_isEnemy: "ownedBy player piece \<Longrightarrow> isEnemy (isRed piece) other = opposing piece other"
  by (drule owned_cases) (auto simp: isEnemy_def opposing_def isRed_def sideOf_def)

lemma owned_jumpTest:
  "ownedBy player piece \<Longrightarrow> jumpTest board (isRed piece) row col = canJump board row col piece"
  by (rule ext) (simp add: jumpTest_def canJump_def owned_isEnemy)

lemma captureDestinations_nonempty:
  "captureDestinations board row col piece \<noteq> [] \<longleftrightarrow>
     (\<exists>d \<in> set (diagonals piece). canJump board row col piece d)"
  by (auto simp: captureDestinations_def filter_empty_conv)

lemma holds_valBoard:
  assumes "valBoard board" "onBoard r c"
  shows "\<exists>p. holds board r c = Some p"
  using at_valBoard [OF assms] by (auto simp: holds_def)

lemma pieceCaptures_spec:
  assumes "valBoard board" "onBoard r c" "player \<noteq> Spectator"
  shows "pieceCaptures board (player = PlayerRed) r c \<longleftrightarrow>
           ownedBy player (holds board r c) \<and>
           captureDestinations board r c (holds board r c) \<noteq> []"
proof -
  obtain p where p: "holds board r c = Some p"
    using holds_valBoard [OF assms(1,2)] by blast
  have own: "ownedBy player (Some p) \<longleftrightarrow> Some p \<noteq> Some Empty \<and> (player = PlayerRed) = isRed (Some p)"
    using assms(3) by (cases player; cases p) (simp_all add: ownedBy_def sideOf_def isRed_def)
  show ?thesis
  proof (cases "ownedBy player (Some p)")
    case True
    then show ?thesis
      using own
      by (simp add: pieceCaptures_def p captureDestinations_nonempty owned_directions [OF True]
          owned_jumpTest [OF True])
  next
    case False
    then show ?thesis using own by (auto simp: pieceCaptures_def p)
  qed
qed

lemma anyFriendlyCapture_eq:
  assumes "valBoard board" "player \<noteq> Spectator"
  shows "(\<exists>r \<in> set [0..7]. \<exists>c \<in> set [0..7]. pieceCaptures board (player = PlayerRed) r c)
           \<longleftrightarrow> anyFriendlyCapture board player"
proof -
  have "\<And>r c. r \<in> set [0..7] \<Longrightarrow> c \<in> set [0..7] \<Longrightarrow> onBoard r c"
    by (simp add: onBoard_def)
  then show ?thesis
    unfolding anyFriendlyCapture_def
    using pieceCaptures_spec [OF assms(1) _ assms(2)] by blast
qed


lemma capture_simple_disjoint:
  "set (captureDestinations board row col piece) \<inter> set (simpleDestinations board row col piece) = {}"
  by (auto simp: captureDestinations_def simpleDestinations_def diagonals_def Let_def
      split: if_splits)

lemma calculateValidMoves_eq:
  assumes "valBoard board" "onBoard row col" "ownedBy player piece"
  shows "calculateValidMoves board player row col piece =
           Inr (if captureDestinations board row col piece \<noteq> []
                then captureDestinations board row col piece
                else if anyFriendlyCapture board player then []
                else simpleDestinations board row col piece)"
proof -
  have len: "length board = 8" using assms(1) by (simp add: valBoard_def is8x8_def)
  have ns: "player \<noteq> Spectator" using assms(3) by (simp add: ownedBy_def)
  have loop: "validMoves_loop board (isRed piece) row col (directions piece) [] [] =
          Inr (simpleDestinations board row col piece, captureDestinations board row col piece)"
    by (simp add: validMoves_loop_eq [OF len assms(2)] owned_directions [OF assms(3)]
        owned_jumpTest [OF assms(3)] simpleDestinations_def captureDestinations_def)
  have any: "hasAnyCaptureAvailable board player = Inr (anyFriendlyCapture board player)"
    by (simp only: hasAnyCaptureAvailable_eq [OF len] anyFriendlyCapture_eq [OF assms(1) ns])
  show ?thesis
    unfolding calculateValidMoves_def loop any by simp
qed

lemma isPieceOwnedByPlayer_eq:
  "isPieceOwnedByPlayer player (Some p) \<longleftrightarrow> ownedBy player (Some p)"
  by (cases player; cases p) (simp_all add: isPieceOwnedByPlayer_def ownedBy_def sideOf_def isRed_def)

lemma calculatePremoveValidMoves_eq:
  assumes "valBoard board" "onBoard row col" "ownedBy player piece"
  shows "\<exists>ms. calculatePremoveValidMoves board row col piece = Inr ms \<and>
           set ms = set (simpleDestinations board row col piece) \<union>
                    set (captureDestinations board row col piece)"
proof -
  have len: "length board = 8" using assms(1) by (simp add: valBoard_def is8x8_def)
  show ?thesis
    using premoveMoves_loop_set [OF len assms(2), of "isRed piece" "directions piece" "[]"]
    by (simp add: calculatePremoveValidMoves_def owned_directions [OF assms(3)]
        owned_jumpTest [OF assms(3)] simpleDestinations_def captureDestinations_def)
qed

section \<open>Claims about the legality engine\<close>

text \<open>
  C1. For every decoded 8 by 8 board and every square on it holding a piece of the acting
  player's colour, \<open>calculateValidMoves\<close> returns: exactly the piece's capture
  destinations (none of them a simple move) if it has a capture; the empty list if it has
  none but some friendly piece has one; the piece's simple diagonal moves if no friendly
  piece has a capture. \<open>hasAnyCaptureAvailable\<close> decides whether any friendly piece
  has a capture.
\<close>

theorem calculateValidMoves_mandatory_capture:
  assumes "board = parseBoardState bs" and "is8x8 board" and "onBoard row col"
    and "holds board row col = piece" and "ownedBy player piece"
  shows "\<exists>ms. calculateValidMoves board player row col piece = Inr ms \<and>
           hasAnyCaptureAvailable board player = Inr (anyFriendlyCapture board player) \<and>
           (captureDestinations board row col piece \<noteq> [] \<longrightarrow>
              ms = captureDestinations board row col piece \<and>
              set ms \<inter> set (simpleDestinations board row col piece) = {}) \<and>
           (captureDestinations board row col piece = [] \<and> anyFriendlyCapture board player \<longrightarrow>
              ms = []) \<and>
           (\<not> anyFriendlyCapture board player \<longrightarrow>
              ms = simpleDestinations board row col piece)"
proof -
  have vb: "valBoard board" using assms(1,2) valBoard_parse by simp
  have len: "length board = 8" using assms(2) by (simp add: is8x8_def)
  have ns: "player \<noteq> Spectator" using assms(5) by (simp add: ownedBy_def)
  have any: "hasAnyCaptureAvailable board player = Inr (anyFriendlyCapture board player)"
    by (simp only: hasAnyCaptureAvailable_eq [OF len] anyFriendlyCapture_eq [OF vb ns])
  have mine: "captureDestinations board row col piece \<noteq> [] \<Longrightarrow> anyFriendlyCapture board player"
  proof -
    assume c: "captureDestinations board row col piece \<noteq> []"
    have r: "row \<in> set [0..7]" and cc: "col \<in> set [0..7]"
      using assms(3) by (simp_all add: onBoard_def)
    have "ownedBy player (holds board row col) \<and>
          captureDestinations board row col (holds board row col) \<noteq> []"
      using c assms(4,5) by simp
    then show "anyFriendlyCapture board player"
      unfolding anyFriendlyCapture_def using r cc by blast
  qed
  show ?thesis
    unfolding calculateValidMoves_eq [OF vb assms(3,5)] any
    using mine capture_simple_disjoint [of board row col piece] by auto
qed

theorem calculateValidMoves_mandatory_capture_witness:
  "is8x8 (parseBoardState captureBoard) \<and> onBoard 2 1 \<and>
   holds (parseBoardState captureBoard) 2 1 = Some Red \<and> ownedBy PlayerRed (Some Red) \<and>
   captureDestinations (parseBoardState captureBoard) 2 1 (Some Red) = [(4, 3)] \<and>
   simpleDestinations (parseBoardState captureBoard) 2 1 (Some Red) = [(3, 0)] \<and>
   calculateValidMoves (parseBoardState captureBoard) PlayerRed 2 1 (Some Red) = Inr [(4, 3)] \<and>
   hasAnyCaptureAvailable (parseBoardState captureBoard) PlayerRed = Inr True"
proof -
  let ?b = "parseBoardState captureBoard"
  have h1: "is8x8 ?b" by code_simp
  have h2: "onBoard 2 1" by (simp add: onBoard_def)
  have h3: "holds ?b 2 1 = Some Red" by code_simp
  have h4: "ownedBy PlayerRed (Some Red)" by (simp add: ownedBy_def sideOf_def)
  have caps: "captureDestinations ?b 2 1 (Some Red) = [(4, 3)]" by code_simp
  have simple: "simpleDestinations ?b 2 1 (Some Red) = [(3, 0)]" by code_simp
  have any: "anyFriendlyCapture ?b PlayerRed" by code_simp
  from calculateValidMoves_mandatory_capture [OF refl h1 h2 h3 h4]
  show ?thesis using h1 h2 h3 h4 caps simple any by auto
qed

text \<open>
  C9. For every decoded 8 by 8 board and every square on it, a premove click selects the
  square as source exactly if its piece is of the local player's colour (no turn enters
  the test), and the valid-move list then stored for it is
  \<open>calculatePremoveValidMoves\<close>, whose squares are the piece's simple moves together
  with its capture destinations, whatever captures exist on the board.
\<close>

theorem premove_staging_ignores_mandatory_capture:
  assumes "board = parseBoardState bs" and "is8x8 board" and "onBoard row col"
    and "holds board row col = piece"
  shows "\<exists>sel cbs. handlePremoveClick board player pending row col ui = Inr (sel, cbs) \<and>
           (isPieceOwnedByPlayer player piece \<longleftrightarrow> ownedBy player piece) \<and>
           (premoveFrom sel \<noteq> None \<longleftrightarrow> ownedBy player piece) \<and>
           (ownedBy player piece \<longrightarrow>
              premoveFrom sel = Some (row, col) \<and>
              calculatePremoveValidMoves board row col piece = Inr (premoveValidMoves sel) \<and>
              set (premoveValidMoves sel) =
                set (simpleDestinations board row col piece) \<union>
                set (captureDestinations board row col piece))"
proof -
  have vb: "valBoard board" using assms(1,2) valBoard_parse by simp
  have len: "length board = 8" using assms(2) by (simp add: is8x8_def)
  obtain p where p: "piece = Some p"
    using holds_valBoard [OF vb assms(3)] assms(4) by auto
  have at: "at board row col = Inr piece"
    using at_holds [OF len, of row col] assms(3,4) by (simp add: onBoard_def)
  have own: "isPieceOwnedByPlayer player piece \<longleftrightarrow> ownedBy player piece"
    unfolding p by (rule isPieceOwnedByPlayer_eq)
  show ?thesis
  proof (cases "ownedBy player piece")
    case True
    obtain ms where ms: "calculatePremoveValidMoves board row col piece = Inr ms"
      and set_ms: "set ms = set (simpleDestinations board row col piece) \<union>
                    set (captureDestinations board row col piece)"
      using calculatePremoveValidMoves_eq [OF vb assms(3) True] by blast
    show ?thesis
      using True own set_ms by (simp add: handlePremoveClick_def at ms)
  next
    case False
    then show ?thesis
      using own by (cases "premoveFrom ui") (auto simp: handlePremoveClick_def at)
  qed
qed


theorem premove_staging_ignores_mandatory_capture_witness:
  "is8x8 (parseBoardState captureBoard) \<and> onBoard 2 1 \<and>
   holds (parseBoardState captureBoard) 2 1 = Some Red \<and> ownedBy PlayerRed (Some Red) \<and>
   calculatePremoveValidMoves (parseBoardState captureBoard) 2 1 (Some Red)
     = Inr [(3, 0), (4, 3)] \<and>
   set [(3, 0), (4, 3)] =
     set (simpleDestinations (parseBoardState captureBoard) 2 1 (Some Red)) \<union>
     set (captureDestinations (parseBoardState captureBoard) 2 1 (Some Red)) \<and>
   (\<exists>sel cbs. handlePremoveClick (parseBoardState captureBoard) PlayerRed None 2 1
        \<lparr>premoveFrom = None, premoveValidMoves = []\<rparr> = Inr (sel, cbs) \<and>
      premoveFrom sel = Some (2, 1) \<and> premoveValidMoves sel = [(3, 0), (4, 3)])"
proof -
  let ?b = "parseBoardState captureBoard"
  have h1: "is8x8 ?b" by code_simp
  have h2: "onBoard 2 1" by (simp add: onBoard_def)
  have h3: "holds ?b 2 1 = Some Red" by code_simp
  have h4: "ownedBy PlayerRed (Some Red)" by (simp add: ownedBy_def sideOf_def)
  have pm: "calculatePremoveValidMoves ?b 2 1 (Some Red) = Inr [(3, 0), (4, 3)]" by code_simp
  from premove_staging_ignores_mandatory_capture [OF refl h1 h2 h3,
      of PlayerRed None "\<lparr>premoveFrom = None, premoveValidMoves = []\<rparr>"]
  obtain sel cbs where
    click: "handlePremoveClick ?b PlayerRed None 2 1
              \<lparr>premoveFrom = None, premoveValidMoves = []\<rparr> = Inr (sel, cbs)"
    and own: "ownedBy PlayerRed (Some Red) \<longrightarrow>
              premoveFrom sel = Some (2, 1) \<and>
              calculatePremoveValidMoves ?b 2 1 (Some Red) = Inr (premoveValidMoves sel) \<and>
              set (premoveValidMoves sel) =
                set (simpleDestinations ?b 2 1 (Some Red)) \<union>
                set (captureDestinations ?b 2 1 (Some Red))"
    by blast
  from own h4 pm have frm: "premoveFrom sel = Some (2, 1)"
    and ms: "premoveValidMoves sel = [(3, 0), (4, 3)]"
    and un: "set (premoveValidMoves sel) =
                set (simpleDestinations ?b 2 1 (Some Red)) \<union>
                set (captureDestinations ?b 2 1 (Some Red))"
    by simp_all
  from un have un': "set [(3, 0), (4, 3)] =
                set (simpleDestinations ?b 2 1 (Some Red)) \<union>
                set (captureDestinations ?b 2 1 (Some Red))"
    unfolding ms .
  have ex: "\<exists>sel cbs. handlePremoveClick ?b PlayerRed None 2 1
        \<lparr>premoveFrom = None, premoveValidMoves = []\<rparr> = Inr (sel, cbs) \<and>
      premoveFrom sel = Some (2, 1) \<and> premoveValidMoves sel = [(3, 0), (4, 3)]"
    using click frm ms by blast
  show ?thesis
    by (intro conjI h1 h2 h3 h4 pm un' ex)
qed

section \<open>Lemmas about the synchronizer\<close>

lemma fetchGames_arrive_monotone:
  assumes "selectedGame s = Some cur"
  shows "\<exists>g. selectedGame (fetchGames_arrive r s) = Some g \<and> moveCount cur \<le> moveCount g"
  using assms
  by (auto simp: fetchGames_arrive_def Let_def split: reply.splits option.splits)

lemma requestAsync_cases:
  "requestAsync w req net =
     (if walletConnected w then (net, [req]) else (Rejected ''Wallet not connected'', []))"
  by (auto simp: requestAsync_def walletConnected_def)



text \<open>The shape of a call that passes the three tests at its head.\<close>

lemma makeMove_proceeds:
  assumes "selectedGame s = Some g" "selectedGameId s = Some gid" "gid \<noteq> []"
    and "playerId w = Some pid" "pid \<noteq> []" "\<not> isMoving s"
  shows "makeMove env w mv s =
     (let s1 = s\<lparr>isMoving := True, error := None\<rparr>; s2 = duringSend env s1 in
      if \<not> walletConnected w
      then (False, s2\<lparr>error := Some ''Wallet not connected'', isMoving := False\<rparr>, [])
      else
        (case sendReply env of
           Rejected msg \<Rightarrow>
            (False, s2\<lparr>error := Some msg, isMoving := False\<rparr>, [(SendMove gid mv pid, s1)])
         | Resolved u \<Rightarrow>
            (case retryLoop env gid (moveCount g) [0, 1, 2] (duringSettle env s2) of
               (s3, tr) \<Rightarrow>
                (True, s3\<lparr>isMoving := False\<rparr>,
                 (SendMove gid mv pid, s1) # (IncrementNotification, s2) # (Sleep 800, s2) # tr))))"
  using assms
  by (auto simp: makeMove_def requestAsync_cases stamp_def Let_def
      split: reply.splits prod.splits simp del: retryLoop.simps)

section \<open>Claims about the synchronizer\<close>

text \<open>
  C2. The claim: a snapshot arriving for the selected game replaces the cached one only
  if its move count is at least the cached one, so that the arrivals 3, 2, 5, 4 end
  with move count 5. \<open>fetchGames\<close> keeps this rule; \<open>fetchGame\<close>, which the
  background poll and the retry loop of \<open>makeMove\<close> call, replaces the selected game
  unconditionally: with the same arrivals it ends with move count 4.
\<close>

theorem fetchGame_arrivals_3_2_5_4:
  "selectedGame (fetchGame_arrive gid (Resolved (Some game)) s) = Some game \<and>
   selectedGameId startStore = Some ''g1'' \<and>
   map_option moveCount (selectedGame (arrivals_fetchGame [3, 2, 5, 4] startStore)) = Some 4 \<and>
   map_option moveCount (selectedGame (arrivals_fetchGames [3, 2, 5, 4] startStore)) = Some 5"
  by (simp add: arrivals_fetchGame_def fetchGame_def fetchGame_arrive_def fetchGame_start_def
      arrivals_fetchGames_def fetchGames_arrive_def fetchGames_start_def
      snapshot_def startStore_def startGame_def truthy_def)




lemma quiet_makeMove:
  "map fst (snd (snd (makeMove (quietEnv (Resolved ()) startGame) aliceWallet openingMove
      startStore))) =
     [SendMove ''g1'' openingMove ''alice'', IncrementNotification, Sleep 800,
      FetchGame ''g1'', Sleep 500, FetchGame ''g1'', Sleep 500, FetchGame ''g1'', Sleep 500]"
  by (simp add: makeMove_def requestAsync_def stamp_def quietEnv_def aliceWallet_def
      startStore_def startGame_def fetchGame_def fetchGame_arrive_def
      fetchGame_start_def truthy_def Let_def)



section \<open>Claims about the premove queue\<close>

text \<open>
  C3, as amended. Queuing a second premove leaves only the second one pending. The
  premove effect sets its timer exactly when it is now the local player's turn, it was
  not at the previous run, a premove is pending and the game is active. The timer's
  callback empties the slot and hands the premove to \<open>makeMove\<close>, whatever that call
  returns. No legality check is made on the way: with a game selected, a player id, a
  connected wallet and no move in flight, the move mutation leaves for every premove;
  when the service rejects it and nothing else writes the store, the call returns
  false and the selected game and the games list are what they were before.
\<close>

theorem premove_executes_unchecked:
  "premove (handlePremove r2 c2 r2' c2' (handlePremove r1 c1 r1' c1' pg)) =
     Some \<lparr>fromRow = r2, fromCol = c2, toRow = r2', toCol = c2'\<rparr> \<and>
   (snd (premoveEffect w s pg) \<longleftrightarrow>
      isMyTurn w s \<and> \<not> prevIsMyTurnForPremove pg \<and> premove pg \<noteq> None \<and>
      map_option status (selectedGame s) = Some Active) \<and>
   (premove pg = Some pm \<longrightarrow>
      premoveTimeout env w pg s = (pg\<lparr>premove := None\<rparr>, Some (makeMove env w pm s))) \<and>
   (premove pg = Some pm \<and> selectedGame s = Some g \<and> selectedGameId s = Some gid \<and>
    gid \<noteq> [] \<and> playerId w = Some pid \<and> pid \<noteq> [] \<and> \<not> isMoving s \<and> walletConnected w \<longrightarrow>
      (\<exists>ok s' tr.
         premoveTimeout env w pg s = (pg\<lparr>premove := None\<rparr>, Some (ok, s', tr)) \<and>
         hd tr = (SendMove gid pm pid, s\<lparr>isMoving := True, error := None\<rparr>) \<and> tr \<noteq> [] \<and>
         (\<forall>msg. sendReply env = Rejected msg \<and> duringSend env = (\<lambda>s. s) \<longrightarrow>
            \<not> ok \<and> selectedGame s' = selectedGame s \<and> games s' = games s)))"
proof (intro conjI impI)
  show "premove (handlePremove r2 c2 r2' c2' (handlePremove r1 c1 r1' c1' pg)) =
     Some \<lparr>fromRow = r2, fromCol = c2, toRow = r2', toCol = c2'\<rparr>"
    by (simp add: handlePremove_def)
  show "snd (premoveEffect w s pg) \<longleftrightarrow>
      isMyTurn w s \<and> \<not> prevIsMyTurnForPremove pg \<and> premove pg \<noteq> None \<and>
      map_option status (selectedGame s) = Some Active"
    by (simp add: premoveEffect_def)
  show "premoveTimeout env w pg s = (pg\<lparr>premove := None\<rparr>, Some (makeMove env w pm s))"
    if "premove pg = Some pm" using that by (simp add: premoveTimeout_def)
  show "\<exists>ok s' tr.
         premoveTimeout env w pg s = (pg\<lparr>premove := None\<rparr>, Some (ok, s', tr)) \<and>
         hd tr = (SendMove gid pm pid, s\<lparr>isMoving := True, error := None\<rparr>) \<and> tr \<noteq> [] \<and>
         (\<forall>msg. sendReply env = Rejected msg \<and> duringSend env = (\<lambda>s. s) \<longrightarrow>
            \<not> ok \<and> selectedGame s' = selectedGame s \<and> games s' = games s)"
    if h: "premove pg = Some pm \<and> selectedGame s = Some g \<and> selectedGameId s = Some gid \<and>
    gid \<noteq> [] \<and> playerId w = Some pid \<and> pid \<noteq> [] \<and> \<not> isMoving s \<and> walletConnected w"
  proof -
    from h have hs: "selectedGame s = Some g" "selectedGameId s = Some gid" "gid \<noteq> []"
      "playerId w = Some pid" "pid \<noteq> []" "\<not> isMoving s" and conn: "walletConnected w"
      by simp_all
    note shape = makeMove_proceeds [OF hs, of env pm, unfolded Let_def]
    obtain ok s' tr where mm: "makeMove env w pm s = (ok, s', tr)"
      by (cases "makeMove env w pm s")
    let ?s1 = "s\<lparr>isMoving := True, error := None\<rparr>"
    obtain s3 tr3 where rl: "retryLoop env gid (moveCount g) [0, 1, 2]
                                (duringSettle env (duringSend env ?s1)) = (s3, tr3)"
      by (cases "retryLoop env gid (moveCount g) [0, 1, 2] (duringSettle env (duringSend env ?s1))")
    have hd: "tr \<noteq> [] \<and> hd tr = (SendMove gid pm pid, ?s1)"
      using mm shape conn rl by (cases "sendReply env") auto
    have rej: "\<forall>msg. sendReply env = Rejected msg \<and> duringSend env = (\<lambda>s. s) \<longrightarrow>
            \<not> ok \<and> selectedGame s' = selectedGame s \<and> games s' = games s"
      using mm shape conn by auto
    show ?thesis
      using h mm hd rej by (simp add: premoveTimeout_def)
  qed
qed

theorem premove_executes_unchecked_witness:
  "premove (handlePremove 2 1 3 2 emptyPage) = Some openingMove \<and>
   selectedGame flipStore = Some flipGame \<and> selectedGameId flipStore = Some ''g1'' \<and>
   \<not> isMoving flipStore \<and> walletConnected aliceWallet \<and>
   \<not> legalMove (boardState flipGame) PlayerRed openingMove \<and>
   (\<exists>ok s' tr.
      premoveTimeout rejectingEnv aliceWallet (handlePremove 2 1 3 2 emptyPage) flipStore =
        ((handlePremove 2 1 3 2 emptyPage)\<lparr>premove := None\<rparr>, Some (ok, s', tr)) \<and>
      hd tr = (SendMove ''g1'' openingMove ''alice'', flipStore\<lparr>isMoving := True, error := None\<rparr>) \<and>
      tr \<noteq> [] \<and> \<not> ok \<and>
      selectedGame s' = selectedGame flipStore \<and> games s' = games flipStore)"
proof -
  let ?pg = "handlePremove 2 1 3 2 emptyPage"
  have h: "premove ?pg = Some openingMove \<and> selectedGame flipStore = Some flipGame \<and>
      selectedGameId flipStore = Some ''g1'' \<and> ''g1'' \<noteq> [] \<and>
      playerId aliceWallet = Some ''alice'' \<and> ''alice'' \<noteq> [] \<and> \<not> isMoving flipStore \<and>
      walletConnected aliceWallet"
    by (simp add: handlePremove_def openingMove_def flipStore_def startStore_def
        aliceWallet_def walletConnected_def truthy_def)
  have env: "sendReply rejectingEnv = Rejected ''Invalid move'' \<and>
             duringSend rejectingEnv = (\<lambda>s. s)"
    by (simp add: rejectingEnv_def quietEnv_def)
  have illegal: "\<not> legalMove (boardState flipGame) PlayerRed openingMove"
    by code_simp
  from premove_executes_unchecked [where pg = ?pg and w = aliceWallet
      and s = flipStore and pm = openingMove and env = rejectingEnv and g = flipGame
      and gid = "''g1''" and pid = "''alice''"] h
  obtain ok s' tr where
    "premoveTimeout rejectingEnv aliceWallet ?pg flipStore =
       (?pg\<lparr>premove := None\<rparr>, Some (ok, s', tr))"
    "hd tr = (SendMove ''g1'' openingMove ''alice'', flipStore\<lparr>isMoving := True, error := None\<rparr>)"
    "tr \<noteq> []"
    "\<forall>msg. sendReply rejectingEnv = Rejected msg \<and> duringSend rejectingEnv = (\<lambda>s. s) \<longrightarrow>
            \<not> ok \<and> selectedGame s' = selectedGame flipStore \<and> games s' = games flipStore"
    by blast
  with env h illegal show ?thesis by blast
qed

text \<open>
  C3, as stated, fails. Red stages (2,1) to (3,2) on a board where (3,2) is empty; black
  then moves a man onto (3,2), so that on the board at the turn flip the premove is
  illegal (the square is taken, and red has a capture to make). The effect fires, and
  the callback sends the move mutation all the same.
\<close>

theorem premove_illegal_is_sent_counterexample:
  "calculatePremoveValidMoves (parseBoardState stagingBoard) 2 1 (Some Red)
     = Inr [(3, 0), (3, 2)] \<and>
   handlePremoveClick (parseBoardState stagingBoard) PlayerRed None 3 2
       \<lparr>premoveFrom = Some (2, 1), premoveValidMoves = [(3, 0), (3, 2)]\<rparr>
     = Inr (\<lparr>premoveFrom = None, premoveValidMoves = []\<rparr>,
            [OnPremove 2 1 3 2, PlaySound ''move'']) \<and>
   premove (handlePremove 2 1 3 2 emptyPage) = Some openingMove \<and>
   snd (premoveEffect aliceWallet flipStore (handlePremove 2 1 3 2 emptyPage)) \<and>
   \<not> legalMove (boardState flipGame) PlayerRed openingMove \<and>
   premoveTimeout rejectingEnv aliceWallet (handlePremove 2 1 3 2 emptyPage) flipStore =
     (emptyPage,
      Some (False, flipStore\<lparr>error := Some ''Invalid move''\<rparr>,
            [(SendMove ''g1'' openingMove ''alice'', flipStore\<lparr>isMoving := True\<rparr>)]))"
proof -
  have 1: "calculatePremoveValidMoves (parseBoardState stagingBoard) 2 1 (Some Red)
     = Inr [(3, 0), (3, 2)]"
    by code_simp
  have 2: "handlePremoveClick (parseBoardState stagingBoard) PlayerRed None 3 2
       \<lparr>premoveFrom = Some (2, 1), premoveValidMoves = [(3, 0), (3, 2)]\<rparr>
     = Inr (\<lparr>premoveFrom = None, premoveValidMoves = []\<rparr>,
            [OnPremove 2 1 3 2, PlaySound ''move''])"
    by code_simp
  have 3: "\<not> legalMove (boardState flipGame) PlayerRed openingMove"
    by code_simp
  have 4: "isMyTurn aliceWallet flipStore"
    by (simp add: isMyTurn_def flipStore_def flipGame_def startStore_def startGame_def
        aliceWallet_def truthy_def)
  have 5: "snd (premoveEffect aliceWallet flipStore (handlePremove 2 1 3 2 emptyPage))"
    using 4 by (simp add: premoveEffect_def handlePremove_def emptyPage_def flipStore_def
        flipGame_def startStore_def startGame_def)
  have 6: "premoveTimeout rejectingEnv aliceWallet (handlePremove 2 1 3 2 emptyPage)
             flipStore =
     (emptyPage,
      Some (False, flipStore\<lparr>error := Some ''Invalid move''\<rparr>,
            [(SendMove ''g1'' openingMove ''alice'', flipStore\<lparr>isMoving := True\<rparr>)]))"
    by (simp add: handlePremove_def emptyPage_def openingMove_def premoveTimeout_def
        makeMove_def requestAsync_def stamp_def rejectingEnv_def quietEnv_def flipStore_def
        startStore_def aliceWallet_def truthy_def Let_def)
  have 7: "premove (handlePremove 2 1 3 2 emptyPage) = Some openingMove"
    by (simp add: handlePremove_def openingMove_def)
  show ?thesis
    by (intro conjI 1 2 3 5 6 7)
qed

section \<open>Lemmas about the timeout arbiter\<close>







section \<open>Claims about the timeout arbiter\<close>




end
